theory Spec2Isabelle
  imports Main "HOL-Library.Multiset"
begin

section \<open>Python values the rule engine computes with\<close>

text \<open>
  The exceptions the modelled code can raise. \<open>ValueError\<close> is raised by
  \<^verbatim>\<open>date.replace\<close> when the new fields are not a date, \<open>IllegalMonthError\<close> by
  \<^verbatim>\<open>calendar.monthrange\<close>, \<open>DivisionByZero\<close> and \<open>InvalidOperation\<close> by
  \<^verbatim>\<open>Decimal.__truediv__\<close>, \<open>IntegrityError\<close> by the storage layer when a
  uniqueness constraint is violated.
\<close>

datatype error = ValueError | IllegalMonthError | DivisionByZero | InvalidOperation | IntegrityError

subsection \<open>datetime.date\<close>

record date =
  d_year :: int
  d_month :: int
  d_day :: int

definition is_leap :: "int \<Rightarrow> bool" where
  "is_leap y = (y mod 4 = 0 \<and> (y mod 100 \<noteq> 0 \<or> y mod 400 = 0))"

text \<open>\<^verbatim>\<open>_DAYS_IN_MONTH = [-1, 31, 28, 31, 30, 31, 30, 31, 31, 30, 31, 30, 31]\<close>\<close>

definition DAYS_IN_MONTH :: "int \<Rightarrow> int" where
  "DAYS_IN_MONTH m =
     (if m = 2 then 28 else if m = 4 \<or> m = 6 \<or> m = 9 \<or> m = 11 then 30 else 31)"

definition days_in_month :: "int \<Rightarrow> int \<Rightarrow> int" where
  "days_in_month y m = (if m = 2 \<and> is_leap y then 29 else DAYS_IN_MONTH m)"

text \<open>\<^verbatim>\<open>_check_date_fields\<close>: \<open>MINYEAR = 1\<close>, \<open>MAXYEAR = 9999\<close>.\<close>

definition valid_date :: "date \<Rightarrow> bool" where
  "valid_date d =
     (1 \<le> d_year d \<and> d_year d \<le> 9999 \<and> 1 \<le> d_month d \<and> d_month d \<le> 12 \<and>
      1 \<le> d_day d \<and> d_day d \<le> days_in_month (d_year d) (d_month d))"

text \<open>
  \<^verbatim>\<open>date.replace(year=.., month=.., day=..)\<close> builds a new date from the given fields
  and raises \<open>ValueError\<close> when they are out of range.
\<close>

definition replace :: "date \<Rightarrow> int \<Rightarrow> int \<Rightarrow> int \<Rightarrow> error + date" where
  "replace d y m dd =
     (let n = d\<lparr>d_year := y, d_month := m, d_day := dd\<rparr>
      in if valid_date n then Inr n else Inl ValueError)"

text \<open>
  \<^verbatim>\<open>calendar.monthrange(year, month)[1]\<close>: the number of days of the month. The
  weekday component is discarded by the caller.
\<close>

definition monthrange_ndays :: "int \<Rightarrow> int \<Rightarrow> error + int" where
  "monthrange_ndays y m =
     (if \<not> (1 \<le> m \<and> m \<le> 12) then Inl IllegalMonthError else Inr (days_in_month y m))"

text \<open>Dates compare as the tuples (year, month, day).\<close>

definition date_lt :: "date \<Rightarrow> date \<Rightarrow> bool" where
  "date_lt a b =
     (d_year a < d_year b \<or>
      (d_year a = d_year b \<and>
        (d_month a < d_month b \<or> (d_month a = d_month b \<and> d_day a < d_day b))))"

definition date_le :: "date \<Rightarrow> date \<Rightarrow> bool" where
  "date_le a b = (\<not> date_lt b a)"

text \<open>\<^verbatim>\<open>date.toordinal\<close>, through \<^verbatim>\<open>_ymd2ord\<close>.\<close>

definition days_before_year :: "int \<Rightarrow> int" where
  "days_before_year year =
     (let y = year - 1 in y * 365 + y div 4 - y div 100 + y div 400)"

fun DAYS_BEFORE_MONTH :: "nat \<Rightarrow> int" where
  "DAYS_BEFORE_MONTH 0 = 0"
| "DAYS_BEFORE_MONTH (Suc m) = DAYS_BEFORE_MONTH m + (if m = 0 then 0 else DAYS_IN_MONTH (int m))"

definition days_before_month :: "int \<Rightarrow> int \<Rightarrow> int" where
  "days_before_month y m =
     DAYS_BEFORE_MONTH (nat m) + (if m > 2 \<and> is_leap y then 1 else 0)"

definition toordinal :: "date \<Rightarrow> int" where
  "toordinal d = days_before_year (d_year d) + days_before_month (d_year d) (d_month d) + d_day d"

subsection \<open>decimal.Decimal under the default context\<close>

text \<open>
  A finite \<^verbatim>\<open>Decimal\<close> is a signed coefficient and an exponent; its value is
  \<open>coefficient * 10 ^ exponent\<close>. The default context has precision 28 and rounding
  \<^verbatim>\<open>ROUND_HALF_EVEN\<close>. Comparison and truth value go by the numeric value, so
  \<^verbatim>\<open>Decimal('0.00')\<close> and \<^verbatim>\<open>Decimal('0')\<close> are equal and both false. The sign of
  a zero and the exponent limits of the context (\<open>Emin = -999999\<close>, \<open>Emax = 999999\<close>) are
  not represented.
\<close>

datatype decimal = Dec (coef: int) (expo: int)

definition prec :: nat where
  "prec = 28"

text \<open>The number of decimal digits of a non-negative coefficient (\<^verbatim>\<open>len(self._int)\<close>).\<close>

function ndigits :: "int \<Rightarrow> nat" where
  "ndigits n = (if n < 10 then 1 else Suc (ndigits (n div 10)))"
  by pat_completeness auto
termination
  by (relation "measure nat") auto

declare ndigits.simps [simp del]

text \<open>
  Rounding half to even when the lowest \<open>k\<close> digits of a non-negative coefficient are
  dropped.
\<close>

definition round_half_even :: "int \<Rightarrow> nat \<Rightarrow> int" where
  "round_half_even c k =
     (let q = c div 10 ^ k; r = c mod 10 ^ k
      in if 2 * r > 10 ^ k \<or> (2 * r = 10 ^ k \<and> odd q) then q + 1 else q)"

text \<open>
  \<^verbatim>\<open>Decimal._fix\<close>: a coefficient of more than \<open>prec\<close> digits is rounded to
  \<open>prec\<close> digits; when rounding carries into one more digit, the last digit (a zero)
  is dropped too.
\<close>

definition dec_fix :: "decimal \<Rightarrow> decimal" where
  "dec_fix x =
     (let c = coef x; n = ndigits \<bar>c\<bar>
      in if n \<le> prec then x
         else
           let k = n - prec; q = round_half_even \<bar>c\<bar> k
           in if q = 10 ^ prec then Dec (sgn c * 10 ^ (prec - 1)) (expo x + int k + 1)
              else Dec (sgn c * q) (expo x + int k))"

definition dec_of_int :: "int \<Rightarrow> decimal" where
  "dec_of_int n = Dec n 0"

definition dec_truth :: "decimal \<Rightarrow> bool" where
  "dec_truth x = (coef x \<noteq> 0)"

text \<open>Python's \<^verbatim>\<open>x or y\<close> on decimals: \<open>x\<close> when it is true, \<open>y\<close> otherwise.\<close>

definition dec_or :: "decimal \<Rightarrow> decimal \<Rightarrow> decimal" where
  "dec_or x y = (if dec_truth x then x else y)"

text \<open>Both coefficients written at the smaller of the two exponents.\<close>

definition aligned :: "decimal \<Rightarrow> decimal \<Rightarrow> int \<times> int" where
  "aligned a b =
     (let e = min (expo a) (expo b)
      in (coef a * 10 ^ nat (expo a - e), coef b * 10 ^ nat (expo b - e)))"

definition dec_lt :: "decimal \<Rightarrow> decimal \<Rightarrow> bool" where
  "dec_lt a b = (fst (aligned a b) < snd (aligned a b))"

definition dec_eq :: "decimal \<Rightarrow> decimal \<Rightarrow> bool" where
  "dec_eq a b = (fst (aligned a b) = snd (aligned a b))"

definition dec_ge :: "decimal \<Rightarrow> decimal \<Rightarrow> bool" where
  "dec_ge a b = (\<not> dec_lt a b)"

text \<open>Python's builtin \<^verbatim>\<open>max(a, b)\<close> returns \<open>a\<close> unless \<open>b > a\<close>.\<close>

definition dec_max :: "decimal \<Rightarrow> decimal \<Rightarrow> decimal" where
  "dec_max a b = (if dec_lt a b then b else a)"

definition dec_neg :: "decimal \<Rightarrow> decimal" where
  "dec_neg a = Dec (- coef a) (expo a)"

definition dec_abs :: "decimal \<Rightarrow> decimal" where
  "dec_abs a = dec_fix (Dec \<bar>coef a\<bar> (expo a))"

text \<open>Sum, difference and product are the exact results, rounded by the context.\<close>

definition dec_add :: "decimal \<Rightarrow> decimal \<Rightarrow> decimal" where
  "dec_add a b =
     dec_fix (Dec (fst (aligned a b) + snd (aligned a b)) (min (expo a) (expo b)))"

definition dec_sub :: "decimal \<Rightarrow> decimal \<Rightarrow> decimal" where
  "dec_sub a b = dec_add a (dec_neg b)"

definition dec_mul :: "decimal \<Rightarrow> decimal \<Rightarrow> decimal" where
  "dec_mul a b = dec_fix (Dec (coef a * coef b) (expo a + expo b))"

text \<open>
  \<^verbatim>\<open>Decimal.__truediv__\<close>. An exact quotient loses trailing zeros while its exponent
  is below the ideal one:
  \<^verbatim>\<open>while exp < ideal_exp and coeff % 10 == 0: coeff //= 10; exp += 1\<close>
\<close>

function strip_zeros :: "int \<Rightarrow> int \<Rightarrow> int \<Rightarrow> int \<times> int" where
  "strip_zeros coeff ex ideal_exp =
     (if ex < ideal_exp \<and> coeff mod 10 = 0 then strip_zeros (coeff div 10) (ex + 1) ideal_exp
      else (coeff, ex))"
  by pat_completeness auto
termination
  by (relation "measure (\<lambda>(c, e, i). nat (i - e))") auto

declare strip_zeros.simps [simp del]

text \<open>
  The quotient of a non-zero divisor: the coefficients are divided as integers after the
  dividend is shifted to give \<open>prec + 1\<close> digits; an inexact quotient whose last digit is
  0 or 5 is bumped by one so that the final rounding sees the remainder.
\<close>

definition dec_quot :: "decimal \<Rightarrow> decimal \<Rightarrow> decimal" where
  "dec_quot a b =
     (if coef a = 0 then dec_fix (Dec 0 (expo a - expo b))
      else
        let op1 = \<bar>coef a\<bar>; op2 = \<bar>coef b\<bar>;
            shift = int (ndigits op2) - int (ndigits op1) + int prec + 1;
            ex = expo a - expo b - shift;
            num = (if shift \<ge> 0 then op1 * 10 ^ nat shift else op1);
            den = (if shift \<ge> 0 then op2 else op2 * 10 ^ nat (- shift));
            coeff = num div den;
            remainder = num mod den;
            ce = (if remainder \<noteq> 0 then (if coeff mod 5 = 0 then coeff + 1 else coeff, ex)
                  else strip_zeros coeff ex (expo a - expo b))
        in dec_fix (Dec (sgn (coef a) * sgn (coef b) * fst ce) (snd ce)))"

definition dec_div :: "decimal \<Rightarrow> decimal \<Rightarrow> error + decimal" where
  "dec_div a b =
     (if coef b = 0 then (if coef a = 0 then Inl InvalidOperation else Inl DivisionByZero)
      else Inr (dec_quot a b))"

subsection \<open>Text: \<^verbatim>\<open>str(int)\<close> and \<^verbatim>\<open>format(Decimal, '.Nf')\<close>\<close>

definition digit_char :: "int \<Rightarrow> char" where
  "digit_char n = ''0123456789'' ! nat n"

function digits_of :: "int \<Rightarrow> string" where
  "digits_of n = (if n < 10 then [digit_char n] else digits_of (n div 10) @ [digit_char (n mod 10)])"
  by pat_completeness auto
termination
  by (relation "measure nat") auto

declare digits_of.simps [simp del]

definition str_int :: "int \<Rightarrow> string" where
  "str_int n = (if n < 0 then ''-'' @ digits_of (- n) else digits_of n)"

text \<open>
  \<^verbatim>\<open>f'{x:.Nf}'\<close> of a \<^verbatim>\<open>Decimal\<close>: the value is rescaled to \<open>N\<close> places, rounding
  half to even, and printed as sign, integer part, point and \<open>N\<close> digits.
\<close>

definition rescale_abs :: "decimal \<Rightarrow> nat \<Rightarrow> int" where
  "rescale_abs x places =
     (if expo x \<ge> - int places then \<bar>coef x\<bar> * 10 ^ nat (expo x + int places)
      else round_half_even \<bar>coef x\<bar> (nat (- int places - expo x)))"

definition format_f :: "nat \<Rightarrow> decimal \<Rightarrow> string" where
  "format_f places x =
     (let q = rescale_abs x places;
          frac = digits_of (q mod 10 ^ places)
      in (if coef x < 0 then ''-'' else []) @ digits_of (q div 10 ^ places) @
         (if places = 0 then []
          else ''.'' @ replicate (places - length frac) (CHR ''0'') @ frac))"

section \<open>The tables (models.py)\<close>

text \<open>
  A foreign key is the related row itself, as the object graph presents it; queries
  compare related rows by primary key.
\<close>

record user =
  u_id :: int
  department :: string
  leave_balance :: int

datatype att_status = STATUS_PRESENT | STATUS_ABSENT | STATUS_LATE

datatype review_status = REVIEW_PENDING | REVIEW_APPROVED | REVIEW_REJECTED

record attendance_record =
  ar_employee :: user
  ar_date :: date
  ar_status :: att_status
  ar_review_status :: review_status

datatype leave_status = STATUS_PENDING | STATUS_APPROVED | STATUS_REJECTED

record leave_request =
  lr_employee :: user
  lr_start_date :: date
  lr_end_date :: date
  lr_status :: leave_status

definition total_days :: "leave_request \<Rightarrow> int" where
  "total_days l = (toordinal (lr_end_date l) - toordinal (lr_start_date l)) + 1"

record salary_record =
  sr_id :: "int option"
  sr_employee :: user
  sr_month :: date
  sr_base_salary :: decimal
  sr_final_salary :: decimal
  sr_late_days :: int
  sr_absent_days :: int
  sr_anomaly_flag :: bool

section \<open>The rule engine (ai.py)\<close>

text \<open>
  The month's window of \<^verbatim>\<open>attendance_flag\<close>: the first day of the month and the
  first day of the next one. \<^verbatim>\<open>month.replace(year=month.year + 1, ...)\<close> raises
  for December of year 9999.
\<close>

definition month_window :: "date \<Rightarrow> error + (date \<times> date)" where
  "month_window m =
     (case replace m (d_year m) (d_month m) 1 of
        Inl e \<Rightarrow> Inl e
      | Inr month_start \<Rightarrow>
          (case (if d_month m = 12 then replace m (d_year m + 1) 1 1
                 else replace m (d_year m) (d_month m + 1) 1) of
             Inl e \<Rightarrow> Inl e
           | Inr month_end \<Rightarrow> Inr (month_start, month_end)))"

definition attendance_flag ::
  "attendance_record list \<Rightarrow> user \<Rightarrow> date option \<Rightarrow> error + string" where
  "attendance_flag tbl employee month =
     (let records =
            filter (\<lambda>r. u_id (ar_employee r) = u_id employee \<and>
                         ar_review_status r = REVIEW_APPROVED) tbl
      in case (case month of
                 None \<Rightarrow> Inr records
               | Some m \<Rightarrow>
                   (case month_window m of
                      Inl e \<Rightarrow> Inl e
                    | Inr (month_start, month_end) \<Rightarrow>
                        Inr (filter (\<lambda>r. date_le month_start (ar_date r) \<and>
                                         date_lt (ar_date r) month_end) records))) of
           Inl e \<Rightarrow> Inl e
         | Inr records \<Rightarrow>
             (let late_count = length (filter (\<lambda>r. ar_status r = STATUS_LATE) records);
                  absent_count = length (filter (\<lambda>r. ar_status r = STATUS_ABSENT) records)
              in Inr (if late_count > 4 then ''Frequently Late''
                      else if absent_count \<ge> 3 \<and> late_count \<ge> 3 then ''Irregular Attendance''
                      else ''Stable Attendance'')))"

text \<open>
  \<^verbatim>\<open>_team_available\<close>. \<^verbatim>\<open>overlapping.values('employee').distinct().count()\<close> is
  the number of different employee keys among the overlapping requests.
\<close>

definition team_available ::
  "user list \<Rightarrow> leave_request list \<Rightarrow> user \<Rightarrow> date \<Rightarrow> date \<Rightarrow> bool" where
  "team_available users leaves employee start_date end_date =
     (if department employee = [] then True
      else
        let team_members =
              filter (\<lambda>u. department u = department employee \<and> u_id u \<noteq> u_id employee) users
        in if team_members = [] then True
           else
             let overlapping =
                   filter (\<lambda>l. u_id (lr_employee l) \<in> set (map u_id team_members) \<and>
                                lr_status l = STATUS_APPROVED \<and>
                                date_le (lr_start_date l) end_date \<and>
                                date_le start_date (lr_end_date l)) leaves
             in int (length team_members) -
                int (length (remdups (map (\<lambda>l. u_id (lr_employee l)) overlapping))) \<ge> 1)"

definition leave_recommendation :: "user list \<Rightarrow> leave_request list \<Rightarrow> leave_request \<Rightarrow> string" where
  "leave_recommendation users leaves leave_request =
     (if leave_balance (lr_employee leave_request) \<ge> total_days leave_request \<and>
         team_available users leaves (lr_employee leave_request)
           (lr_start_date leave_request) (lr_end_date leave_request)
      then ''Suggest Approve''
      else ''Suggest Review'')"

record summary =
  headline :: string
  insights :: "string list"
  warnings :: "string list"
  deduction :: decimal
  deduction_rate :: decimal

definition payslip_summary :: "salary_record \<Rightarrow> error + summary" where
  "payslip_summary salary_record =
     (let base = dec_or (sr_base_salary salary_record) (Dec 0 (- 2));
          final = dec_or (sr_final_salary salary_record) (Dec 0 (- 2));
          ded = dec_max (dec_sub base final) (Dec 0 (- 2))
      in case (if dec_truth base
               then (case dec_div ded base of
                       Inl e \<Rightarrow> Inl e
                     | Inr q \<Rightarrow> Inr (dec_mul q (Dec 100 0)))
               else Inr (Dec 0 (- 2))) of
           Inl e \<Rightarrow> Inl e
         | Inr rate \<Rightarrow>
             (let hl = (if dec_eq ded (dec_of_int 0) then ''Full payout expected for this month.''
                        else if dec_ge rate (Dec 20 0)
                        then ''Significant deductions detected this month.''
                        else ''Minor deductions applied to this month.'');
                  ins1 = (if dec_eq ded (dec_of_int 0)
                          then [''No attendance deductions were applied.''] else []);
                  ins2 = (if sr_absent_days salary_record \<noteq> 0
                          then ins1 @ [str_int (sr_absent_days salary_record) @
                                        '' day(s) marked absent.'']
                          else ins1);
                  ins3 = (if sr_late_days salary_record \<noteq> 0
                          then ins2 @ [str_int (sr_late_days salary_record) @
                                        '' day(s) marked late.'']
                          else ins2);
                  ins4 = (if ins3 = [] then ins3 @ [''Attendance signals are stable for this period.'']
                          else ins3);
                  w1 = (if sr_anomaly_flag salary_record
                        then [''Salary changed by more than 30% compared to last month.'']
                        else []);
                  w2 = (if dec_lt (dec_of_int 0) ded
                        then w1 @ [''Deduction total: '' @ format_f 2 ded @ '' ('' @
                                    format_f 1 rate @ ''% of base pay).'']
                        else w1)
              in Inr \<lparr>headline = hl, insights = ins4, warnings = w2,
                      deduction = ded, deduction_rate = rate\<rparr>))"

section \<open>Saving a salary record (models.py)\<close>

text \<open>
  \<^verbatim>\<open>queryset.order_by('-month').first()\<close>: a row of the latest month, or nothing
  when there is no row. Among rows of the same month the first of the table is taken;
  the table's uniqueness constraint leaves one such row per employee.
\<close>

fun order_by_month_desc_first :: "salary_record list \<Rightarrow> salary_record option" where
  "order_by_month_desc_first [] = None"
| "order_by_month_desc_first (x # xs) =
     (case order_by_month_desc_first xs of
        None \<Rightarrow> Some x
      | Some y \<Rightarrow> if date_lt (sr_month x) (sr_month y) then Some y else Some x)"

text \<open>
  The body of \<^verbatim>\<open>SalaryRecord.save\<close> up to the call of \<^verbatim>\<open>super().save\<close>: the fields
  it assigns to \<^verbatim>\<open>self\<close>, from the attendance table and the salary table as they are
  when the method runs.
\<close>

definition salary_derivation ::
  "attendance_record list \<Rightarrow> salary_record list \<Rightarrow> salary_record \<Rightarrow> error + salary_record" where
  "salary_derivation att_tbl sal_tbl self =
     (case replace (sr_month self) (d_year (sr_month self)) (d_month (sr_month self)) 1 of
        Inl e \<Rightarrow> Inl e
      | Inr month_start \<Rightarrow>
     (case monthrange_ndays (d_year month_start) (d_month month_start) of
        Inl e \<Rightarrow> Inl e
      | Inr last_day \<Rightarrow>
     (case replace month_start (d_year month_start) (d_month month_start) last_day of
        Inl e \<Rightarrow> Inl e
      | Inr month_end \<Rightarrow>
     (let attendance =
            filter (\<lambda>r. u_id (ar_employee r) = u_id (sr_employee self) \<and>
                         (date_le month_start (ar_date r) \<and> date_le (ar_date r) month_end) \<and>
                         ar_review_status r = REVIEW_APPROVED) att_tbl;
          late_days = int (length (filter (\<lambda>r. ar_status r = STATUS_LATE) attendance));
          absent_days = int (length (filter (\<lambda>r. ar_status r = STATUS_ABSENT) attendance))
      in
     (case (if dec_truth (sr_base_salary self) then dec_div (sr_base_salary self) (Dec 22 0)
            else Inr (Dec 0 (- 2))) of
        Inl e \<Rightarrow> Inl e
      | Inr daily_rate \<Rightarrow>
     (case dec_div daily_rate (Dec 2 0) of
        Inl e \<Rightarrow> Inl e
      | Inr half_rate \<Rightarrow>
     (let ded = dec_add (dec_mul daily_rate (dec_of_int absent_days))
                        (dec_mul half_rate (dec_of_int late_days));
          final_salary = dec_max (dec_sub (sr_base_salary self) ded) (Dec 0 (- 2));
          previous =
            order_by_month_desc_first
              (filter (\<lambda>q. u_id (sr_employee q) = u_id (sr_employee self) \<and>
                           date_lt (sr_month q) month_start) sal_tbl)
      in
     (case (case previous of
              None \<Rightarrow> Inr False
            | Some p \<Rightarrow>
                if dec_truth (sr_final_salary p)
                then (let diff = dec_abs (dec_sub final_salary (sr_final_salary p))
                      in case (if dec_truth (sr_final_salary p)
                               then dec_div diff (sr_final_salary p)
                               else Inr (Dec 0 (- 2))) of
                           Inl e \<Rightarrow> Inl e
                         | Inr ratio \<Rightarrow> Inr (dec_lt (Dec 30 (- 2)) ratio))
                else Inr False) of
        Inl e \<Rightarrow> Inl e
      | Inr flag \<Rightarrow>
          Inr (self\<lparr>sr_month := month_start, sr_late_days := late_days,
                    sr_absent_days := absent_days, sr_final_salary := final_salary,
                    sr_anomaly_flag := flag\<rparr>)))))))))"

text \<open>
  \<^verbatim>\<open>super().save\<close>, the framework's \<^verbatim>\<open>Model.save\<close>, as documented: a record without
  primary key is inserted under a new key; a record whose key is in the table replaces
  that row, and is inserted otherwise. The constraint \<^verbatim>\<open>unique_salary_month\<close> rejects
  a second row for the same employee and month. The rounding of the decimal columns to
  two places on write belongs to the storage layer and is not part of this model: the
  table holds the record as it was derived.
\<close>

definition next_id :: "salary_record list \<Rightarrow> int" where
  "next_id tbl = foldr (\<lambda>q m. case sr_id q of None \<Rightarrow> m | Some i \<Rightarrow> max i m) tbl 0 + 1"

definition super_save ::
  "salary_record list \<Rightarrow> salary_record \<Rightarrow> error + (salary_record \<times> salary_record list)" where
  "super_save tbl r =
     (if list_ex (\<lambda>q. (sr_id r = None \<or> sr_id q \<noteq> sr_id r) \<and>
                      u_id (sr_employee q) = u_id (sr_employee r) \<and>
                      sr_month q = sr_month r) tbl
      then Inl IntegrityError
      else
        (case sr_id r of
           None \<Rightarrow> (let r' = r\<lparr>sr_id := Some (next_id tbl)\<rparr> in Inr (r', tbl @ [r']))
         | Some i \<Rightarrow>
             if list_ex (\<lambda>q. sr_id q = Some i) tbl
             then Inr (r, map (\<lambda>q. if sr_id q = Some i then r else q) tbl)
             else Inr (r, tbl @ [r])))"

definition save ::
  "attendance_record list \<Rightarrow> salary_record list \<Rightarrow> salary_record \<Rightarrow>
   error + (salary_record \<times> salary_record list)" where
  "save att_tbl sal_tbl self =
     (case salary_derivation att_tbl sal_tbl self of
        Inl e \<Rightarrow> Inl e
      | Inr r \<Rightarrow> super_save sal_tbl r)"

section \<open>What the specification says, in its own words\<close>

text \<open>
  The window of a month as the specification describes it: from the first day of the
  month up to, and not including, the first day of the next month. The two ends are
  compared as (year, month, day) triples.
\<close>

definition spec_first_of_month :: "date \<Rightarrow> date" where
  "spec_first_of_month m = m\<lparr>d_day := 1\<rparr>"

definition spec_first_of_next_month :: "date \<Rightarrow> date" where
  "spec_first_of_next_month m =
     (if d_month m = 12 then m\<lparr>d_year := d_year m + 1, d_month := 1, d_day := 1\<rparr>
      else m\<lparr>d_month := d_month m + 1, d_day := 1\<rparr>)"

definition spec_in_scope :: "date option \<Rightarrow> date \<Rightarrow> bool" where
  "spec_in_scope month d =
     (case month of
        None \<Rightarrow> True
      | Some m \<Rightarrow> date_le (spec_first_of_month m) d \<and> date_lt d (spec_first_of_next_month m))"

text \<open>The Approved entries of an employee in scope, and how many have a given status.\<close>

definition spec_relevant :: "user \<Rightarrow> date option \<Rightarrow> attendance_record \<Rightarrow> bool" where
  "spec_relevant employee month r =
     (u_id (ar_employee r) = u_id employee \<and> ar_review_status r = REVIEW_APPROVED \<and>
      spec_in_scope month (ar_date r))"

definition spec_count ::
  "attendance_record list \<Rightarrow> user \<Rightarrow> date option \<Rightarrow> att_status \<Rightarrow> nat" where
  "spec_count tbl employee month s =
     length (filter (\<lambda>r. spec_relevant employee month r \<and> ar_status r = s) tbl)"

definition spec_flag :: "nat \<Rightarrow> nat \<Rightarrow> string" where
  "spec_flag late_count absent_count =
     (if late_count > 4 then ''Frequently Late''
      else if absent_count \<ge> 3 \<and> late_count \<ge> 3 then ''Irregular Attendance''
      else ''Stable Attendance'')"

text \<open>
  The month filter has a window when no month is given, or when the month is a date whose
  next month still is one (every month but December 9999).
\<close>

definition has_window :: "date option \<Rightarrow> bool" where
  "has_window month =
     (case month of
        None \<Rightarrow> True
      | Some m \<Rightarrow> valid_date m \<and> \<not> (d_month m = 12 \<and> d_year m = 9999))"

section \<open>Example data\<close>

definition ymd :: "int \<Rightarrow> int \<Rightarrow> int \<Rightarrow> date" where
  "ymd y m d = \<lparr>d_year = y, d_month = m, d_day = d\<rparr>"

definition ex_user :: "int \<Rightarrow> string \<Rightarrow> int \<Rightarrow> user" where
  "ex_user i dep bal = \<lparr>u_id = i, department = dep, leave_balance = bal\<rparr>"

definition ex_att :: "user \<Rightarrow> date \<Rightarrow> att_status \<Rightarrow> review_status \<Rightarrow> attendance_record" where
  "ex_att e d s rv = \<lparr>ar_employee = e, ar_date = d, ar_status = s, ar_review_status = rv\<rparr>"

definition ex_leave :: "user \<Rightarrow> date \<Rightarrow> date \<Rightarrow> leave_status \<Rightarrow> leave_request" where
  "ex_leave e s t st = \<lparr>lr_employee = e, lr_start_date = s, lr_end_date = t, lr_status = st\<rparr>"

definition ex_salary :: "int option \<Rightarrow> user \<Rightarrow> date \<Rightarrow> decimal \<Rightarrow> decimal \<Rightarrow> salary_record" where
  "ex_salary i e m base final =
     \<lparr>sr_id = i, sr_employee = e, sr_month = m, sr_base_salary = base,
      sr_final_salary = final, sr_late_days = 0, sr_absent_days = 0,
      sr_anomaly_flag = False\<rparr>"

text \<open>An employee with five Approved Late days in March 2024, and entries that do not count.\<close>

definition ex_alice :: user where
  "ex_alice = ex_user 1 ''ops'' 10"

definition ex_history :: "attendance_record list" where
  "ex_history =
     map (\<lambda>d. ex_att ex_alice (ymd 2024 3 d) STATUS_LATE REVIEW_APPROVED) [4, 5, 6, 7, 8] @
     [ex_att ex_alice (ymd 2024 3 11) STATUS_LATE REVIEW_PENDING,
      ex_att ex_alice (ymd 2024 4 1) STATUS_LATE REVIEW_APPROVED,
      ex_att (ex_user 2 ''ops'' 12) (ymd 2024 3 12) STATUS_LATE REVIEW_APPROVED]"

section \<open>Team availability, in the specification's words\<close>

text \<open>
  The team: all other employees with the same department. A teammate is on leave when
  one of their Approved requests overlaps the new range (inclusive overlap test).
\<close>

definition spec_team :: "user list \<Rightarrow> user \<Rightarrow> user list" where
  "spec_team users employee =
     filter (\<lambda>u. department u = department employee \<and> u_id u \<noteq> u_id employee) users"

definition spec_overlaps :: "leave_request \<Rightarrow> date \<Rightarrow> date \<Rightarrow> bool" where
  "spec_overlaps existing new_start new_end =
     (date_le (lr_start_date existing) new_end \<and> date_le new_start (lr_end_date existing))"

definition spec_on_leave :: "leave_request list \<Rightarrow> date \<Rightarrow> date \<Rightarrow> user \<Rightarrow> bool" where
  "spec_on_leave leaves new_start new_end u =
     list_ex (\<lambda>l. u_id (lr_employee l) = u_id u \<and> lr_status l = STATUS_APPROVED \<and>
                   spec_overlaps l new_start new_end) leaves"

definition spec_team_available ::
  "user list \<Rightarrow> leave_request list \<Rightarrow> user \<Rightarrow> date \<Rightarrow> date \<Rightarrow> bool" where
  "spec_team_available users leaves employee new_start new_end =
     (if department employee = [] then True
      else if spec_team users employee = [] then True
      else int (length (spec_team users employee)) -
           int (length (filter (spec_on_leave leaves new_start new_end)
                          (spec_team users employee))) \<ge> 1)"

text \<open>Alice's team: Bob and Carol; Dave is in another department.\<close>

definition ex_users :: "user list" where
  "ex_users = [ex_alice, ex_user 2 ''ops'' 12, ex_user 3 ''ops'' 12, ex_user 4 ''hr'' 12]"

definition ex_leaves :: "leave_request list" where
  "ex_leaves =
     [ex_leave (ex_user 2 ''ops'' 12) (ymd 2024 3 4) (ymd 2024 3 8) STATUS_APPROVED,
      ex_leave (ex_user 2 ''ops'' 12) (ymd 2024 3 9) (ymd 2024 3 9) STATUS_APPROVED,
      ex_leave (ex_user 3 ''ops'' 12) (ymd 2024 3 5) (ymd 2024 3 6) STATUS_PENDING,
      ex_leave (ex_user 4 ''hr'' 12) (ymd 2024 3 5) (ymd 2024 3 9) STATUS_APPROVED]"

definition ex_request :: leave_request where
  "ex_request = ex_leave ex_alice (ymd 2024 3 5) (ymd 2024 3 9) STATUS_PENDING"

section \<open>The payslip, in the specification's words\<close>

definition spec_deduction :: "decimal \<Rightarrow> decimal \<Rightarrow> decimal" where
  "spec_deduction base final = dec_max (dec_sub base final) (Dec 0 (- 2))"

definition spec_headline :: "decimal \<Rightarrow> decimal \<Rightarrow> string" where
  "spec_headline ded rate =
     (if dec_eq ded (dec_of_int 0) then ''Full payout expected for this month.''
      else if dec_ge rate (Dec 20 0) then ''Significant deductions detected this month.''
      else ''Minor deductions applied to this month.'')"

definition spec_absent_line :: "salary_record \<Rightarrow> string" where
  "spec_absent_line r = str_int (sr_absent_days r) @ '' day(s) marked absent.''"

definition spec_late_line :: "salary_record \<Rightarrow> string" where
  "spec_late_line r = str_int (sr_late_days r) @ '' day(s) marked late.''"

text \<open>One line per nonzero count, the absent days first.\<close>

definition spec_day_lines :: "salary_record \<Rightarrow> string list" where
  "spec_day_lines r =
     (if sr_absent_days r \<noteq> 0 then [spec_absent_line r] else []) @
     (if sr_late_days r \<noteq> 0 then [spec_late_line r] else [])"

definition spec_deduction_line :: "decimal \<Rightarrow> decimal \<Rightarrow> string" where
  "spec_deduction_line ded rate =
     ''Deduction total: '' @ format_f 2 ded @ '' ('' @ format_f 1 rate @ ''% of base pay).''"

text \<open>Payslips: base 1000.00 with final 750.00, and with final 1000.00.\<close>

definition ex_payslip :: salary_record where
  "ex_payslip =
     (ex_salary (Some 7) ex_alice (ymd 2024 3 1) (Dec 100000 (- 2)) (Dec 75000 (- 2)))
       \<lparr>sr_absent_days := 5, sr_late_days := 1, sr_anomaly_flag := True\<rparr>"

definition ex_payslip_full :: salary_record where
  "ex_payslip_full =
     ex_salary (Some 8) ex_alice (ymd 2024 4 1) (Dec 100000 (- 2)) (Dec 100000 (- 2))"

definition ex_payslip_quiet :: salary_record where
  "ex_payslip_quiet =
     ex_salary (Some 9) ex_alice (ymd 2024 5 1) (Dec 100000 (- 2)) (Dec 90000 (- 2))"

section \<open>The salary derivation, in the specification's words\<close>

text \<open>The last calendar day of the month of a date.\<close>

definition spec_last_of_month :: "date \<Rightarrow> date" where
  "spec_last_of_month m = m\<lparr>d_day := days_in_month (d_year m) (d_month m)\<rparr>"

text \<open>
  The number of Approved entries of the employee with the given status whose date lies
  between the first and the last day of the month, both included.
\<close>

definition spec_month_count ::
  "attendance_record list \<Rightarrow> user \<Rightarrow> date \<Rightarrow> att_status \<Rightarrow> int" where
  "spec_month_count att employee m s =
     int (length (filter (\<lambda>a. u_id (ar_employee a) = u_id employee \<and>
                               ar_review_status a = REVIEW_APPROVED \<and> ar_status a = s \<and>
                               date_le (spec_first_of_month m) (ar_date a) \<and>
                               date_le (ar_date a) (spec_last_of_month m)) att))"

text \<open>The daily rate as the specification words it: base / 22 for a positive base, else 0.\<close>

definition claimed_daily_rate :: "decimal \<Rightarrow> decimal" where
  "claimed_daily_rate base =
     (if dec_lt (dec_of_int 0) base then dec_quot base (Dec 22 0) else Dec 0 (- 2))"

text \<open>The daily rate for a base that is not zero, negative or positive.\<close>

definition nonzero_daily_rate :: "decimal \<Rightarrow> decimal" where
  "nonzero_daily_rate base =
     (if \<not> dec_eq base (dec_of_int 0) then dec_quot base (Dec 22 0) else Dec 0 (- 2))"

text \<open>
  deduction = daily_rate * absent_days + (daily_rate / 2) * late_days and
  final_salary = max(base - deduction, 0), for a given daily rate.
\<close>

definition spec_salary_deduction :: "decimal \<Rightarrow> int \<Rightarrow> int \<Rightarrow> decimal" where
  "spec_salary_deduction daily_rate absent_days late_days =
     dec_add (dec_mul daily_rate (dec_of_int absent_days))
             (dec_mul (dec_quot daily_rate (Dec 2 0)) (dec_of_int late_days))"

definition spec_final_salary :: "decimal \<Rightarrow> decimal \<Rightarrow> int \<Rightarrow> int \<Rightarrow> decimal" where
  "spec_final_salary daily_rate base absent_days late_days =
     dec_max (dec_sub base (spec_salary_deduction daily_rate absent_days late_days)) (Dec 0 (- 2))"

text \<open>The rows of the same employee with a strictly earlier month.\<close>

definition spec_earlier :: "salary_record list \<Rightarrow> salary_record \<Rightarrow> salary_record list" where
  "spec_earlier tbl r =
     filter (\<lambda>q. u_id (sr_employee q) = u_id (sr_employee r) \<and>
                  date_lt (sr_month q) (spec_first_of_month (sr_month r))) tbl"

text \<open>|final - previous| / previous > 0.30, for a positive previous final salary.\<close>

definition spec_anomaly :: "decimal \<Rightarrow> decimal \<Rightarrow> bool" where
  "spec_anomaly final previous_final =
     (dec_lt (dec_of_int 0) previous_final \<and>
      dec_lt (Dec 30 (- 2)) (dec_quot (dec_abs (dec_sub final previous_final)) previous_final))"

text \<open>
  The row stored under the record's key, before the record is saved, is a row of the
  same employee with a month strictly before the month being saved.
\<close>

definition own_row_earlier :: "salary_record list \<Rightarrow> salary_record \<Rightarrow> bool" where
  "own_row_earlier tbl r =
     list_ex (\<lambda>q. sr_id r \<noteq> None \<and> sr_id q = sr_id r \<and>
                  u_id (sr_employee q) = u_id (sr_employee r) \<and>
                  date_lt (sr_month q) (spec_first_of_month (sr_month r))) tbl"

text \<open>
  A negative base salary (the form accepts any decimal of ten digits) with 23 Approved
  absences in January 2024.
\<close>

definition ex_absences :: "attendance_record list" where
  "ex_absences =
     map (\<lambda>d. ex_att ex_alice (ymd 2024 1 d) STATUS_ABSENT REVIEW_APPROVED) [1..23]"

definition ex_negative :: salary_record where
  "ex_negative = ex_salary None ex_alice (ymd 2024 1 15) (Dec (- 220000) (- 2)) (Dec 0 (- 2))"

text \<open>
  Base 1000.00 in March 2024 with two Approved absences and one Approved late day, after a
  February of 1000.00 and a January of 100.00.
\<close>

definition ex_march_att :: "attendance_record list" where
  "ex_march_att =
     [ex_att ex_alice (ymd 2024 3 4) STATUS_ABSENT REVIEW_APPROVED,
      ex_att ex_alice (ymd 2024 3 5) STATUS_ABSENT REVIEW_APPROVED,
      ex_att ex_alice (ymd 2024 3 31) STATUS_LATE REVIEW_APPROVED,
      ex_att ex_alice (ymd 2024 3 6) STATUS_ABSENT REVIEW_PENDING,
      ex_att ex_alice (ymd 2024 4 1) STATUS_ABSENT REVIEW_APPROVED]"

definition ex_salary_tbl :: "salary_record list" where
  "ex_salary_tbl =
     [ex_salary (Some 1) ex_alice (ymd 2024 1 1) (Dec 10000 (- 2)) (Dec 10000 (- 2)),
      ex_salary (Some 2) ex_alice (ymd 2024 2 1) (Dec 100000 (- 2)) (Dec 100000 (- 2)),
      ex_salary (Some 3) (ex_user 2 ''ops'' 12) (ymd 2024 2 1) (Dec 5000 (- 2)) (Dec 5000 (- 2))]"

definition ex_march :: salary_record where
  "ex_march = ex_salary None ex_alice (ymd 2024 3 20) (Dec 100000 (- 2)) (Dec 0 (- 2))"

definition ex_march_low :: salary_record where
  "ex_march_low = ex_salary None ex_alice (ymd 2024 3 20) (Dec 60000 (- 2)) (Dec 0 (- 2))"

text \<open>
  A stored record of January 2024 with final salary 1000.00, edited to March 2024 with
  base salary 100.00 and saved under the same key.
\<close>

definition ex_stored :: "salary_record list" where
  "ex_stored = [ex_salary (Some 1) ex_alice (ymd 2024 1 1) (Dec 100000 (- 2)) (Dec 100000 (- 2))]"

definition ex_edited :: salary_record where
  "ex_edited = ex_salary (Some 1) ex_alice (ymd 2024 3 1) (Dec 10000 (- 2)) (Dec 100000 (- 2))"

text \<open>The two records as the first save leaves them.\<close>

definition ex_edited_saved :: salary_record where
  "ex_edited_saved =
     ex_edited\<lparr>sr_final_salary := Dec 1000000000000000000000000000 (- 25),
               sr_anomaly_flag := True\<rparr>"

definition ex_march_saved :: salary_record where
  "ex_march_saved =
     ex_march\<lparr>sr_id := Some 4, sr_month := ymd 2024 3 1, sr_late_days := 1,
              sr_absent_days := 2,
              sr_final_salary := Dec 8863636363636363636363636364 (- 25)\<rparr>"

section \<open>Decimals: order against zero\<close>

lemma dec_lt_irrefl: "\<not> dec_lt a a"
  by (simp add: dec_lt_def aligned_def)

lemma dec_eq_refl: "dec_eq a a"
  by (simp add: dec_eq_def aligned_def)

lemma dec_lt_zero_iff: "dec_lt d (Dec 0 e) \<longleftrightarrow> coef d < 0"
  by (simp add: dec_lt_def aligned_def Let_def mult_less_0_iff)

lemma dec_zero_lt_iff: "dec_lt (Dec 0 e) d \<longleftrightarrow> 0 < coef d"
  by (simp add: dec_lt_def aligned_def Let_def zero_less_mult_iff)

lemma dec_eq_zero_iff: "dec_eq d (Dec 0 e) \<longleftrightarrow> coef d = 0"
  by (simp add: dec_eq_def aligned_def Let_def)

lemma dec_zero_eq_iff: "dec_eq (Dec 0 e) d \<longleftrightarrow> coef d = 0"
  by (auto simp add: dec_eq_def aligned_def Let_def)

lemma dec_max_zero_coef: "0 \<le> coef (dec_max x (Dec 0 e))"
  by (simp add: dec_max_def dec_lt_zero_iff)

lemma dec_or_eq: "dec_eq (dec_or x (Dec 0 e)) x"
  by (simp add: dec_or_def dec_truth_def dec_eq_refl dec_zero_eq_iff)

lemma dec_or_truth: "dec_truth (dec_or x (Dec 0 e)) \<longleftrightarrow> dec_truth x"
  by (simp add: dec_or_def dec_truth_def)

section \<open>Decimals: signs of rounded results\<close>

lemma round_half_even_nonneg: "0 \<le> c \<Longrightarrow> 0 \<le> round_half_even c k"
  by (simp add: round_half_even_def Let_def pos_imp_zdiv_nonneg_iff)

lemma dec_fix_cases:
  "dec_fix x = x \<or>
   (\<exists>k. dec_fix x = Dec (sgn (coef x) * 10 ^ (prec - 1)) (expo x + int k + 1)) \<or>
   (\<exists>k. dec_fix x = Dec (sgn (coef x) * round_half_even \<bar>coef x\<bar> k) (expo x + int k))"
  unfolding dec_fix_def Let_def by (simp only: split: if_split) blast

lemma dec_fix_nonneg: "0 \<le> coef x \<Longrightarrow> 0 \<le> coef (dec_fix x)"
proof -
  assume x: "0 \<le> coef x"
  then have s: "0 \<le> sgn (coef x)" by (simp add: sgn_if)
  have r: "\<And>k. 0 \<le> round_half_even \<bar>coef x\<bar> k"
    by (rule round_half_even_nonneg) simp
  from dec_fix_cases [of x] show ?thesis
  proof (elim disjE exE)
    assume "dec_fix x = x"
    with x show ?thesis by simp
  next
    fix k assume "dec_fix x = Dec (sgn (coef x) * 10 ^ (prec - 1)) (expo x + int k + 1)"
    with s show ?thesis by simp
  next
    fix k assume "dec_fix x = Dec (sgn (coef x) * round_half_even \<bar>coef x\<bar> k) (expo x + int k)"
    with s r [of k] show ?thesis by simp
  qed
qed

lemma dec_fix_nonpos: "coef x \<le> 0 \<Longrightarrow> coef (dec_fix x) \<le> 0"
proof -
  assume x: "coef x \<le> 0"
  then have s: "sgn (coef x) \<le> 0" by (simp add: sgn_if)
  have r: "\<And>k. 0 \<le> round_half_even \<bar>coef x\<bar> k"
    by (rule round_half_even_nonneg) simp
  from dec_fix_cases [of x] show ?thesis
  proof (elim disjE exE)
    assume "dec_fix x = x"
    with x show ?thesis by simp
  next
    fix k assume "dec_fix x = Dec (sgn (coef x) * 10 ^ (prec - 1)) (expo x + int k + 1)"
    with s show ?thesis by (simp add: mult_le_0_iff)
  next
    fix k assume "dec_fix x = Dec (sgn (coef x) * round_half_even \<bar>coef x\<bar> k) (expo x + int k)"
    with s r [of k] show ?thesis by (simp add: mult_le_0_iff)
  qed
qed

lemma dec_abs_nonneg: "0 \<le> coef (dec_abs x)"
  by (simp add: dec_abs_def dec_fix_nonneg)

lemma strip_zeros_nonneg: "0 \<le> c \<Longrightarrow> 0 \<le> fst (strip_zeros c e i)"
proof (induction c e i rule: strip_zeros.induct)
  case (1 coeff ex ideal_exp)
  show ?case
  proof (cases "ex < ideal_exp \<and> coeff mod 10 = 0")
    case True
    from "1.prems" have "0 \<le> coeff div 10"
      by (simp add: pos_imp_zdiv_nonneg_iff)
    with "1.IH" True have "0 \<le> fst (strip_zeros (coeff div 10) (ex + 1) ideal_exp)"
      by simp
    with True show ?thesis
      by (subst strip_zeros.simps) simp
  next
    case False
    with "1.prems" show ?thesis
      by (subst strip_zeros.simps) auto
  qed
qed

lemma dec_quot_nonpos:
  assumes "0 \<le> coef a" and "coef b < 0"
  shows "coef (dec_quot a b) \<le> 0"
proof (cases "coef a = 0")
  case True
  then show ?thesis
    by (simp add: dec_quot_def dec_fix_nonpos)
next
  case False
  with assms have a: "0 < coef a" by simp
  define shift where "shift = int (ndigits \<bar>coef b\<bar>) - int (ndigits \<bar>coef a\<bar>) + int prec + 1"
  define num where "num = (if shift \<ge> 0 then \<bar>coef a\<bar> * 10 ^ nat shift else \<bar>coef a\<bar>)"
  define den where "den = (if shift \<ge> 0 then \<bar>coef b\<bar> else \<bar>coef b\<bar> * 10 ^ nat (- shift))"
  define ce where "ce = (if num mod den \<noteq> 0
       then (if (num div den) mod 5 = 0 then num div den + 1 else num div den,
             expo a - expo b - shift)
       else strip_zeros (num div den) (expo a - expo b - shift) (expo a - expo b))"
  have "0 < \<bar>coef b\<bar>"
    using assms(2) by simp
  then have "0 \<le> num" and "0 < den"
    unfolding num_def den_def by (simp_all del: zero_less_abs_iff)
  then have q: "0 \<le> num div den"
    by (simp add: pos_imp_zdiv_nonneg_iff)
  have "0 \<le> fst ce"
  proof (cases "num mod den \<noteq> 0")
    case True
    with q show ?thesis by (simp add: ce_def)
  next
    case False
    then have "ce = strip_zeros (num div den) (expo a - expo b - shift) (expo a - expo b)"
      by (simp add: ce_def)
    with q show ?thesis by (simp only: strip_zeros_nonneg)
  qed
  with a assms(2) have "coef (Dec (sgn (coef a) * sgn (coef b) * fst ce) (snd ce)) \<le> 0"
    by (simp add: mult_le_0_iff)
  then have "coef (dec_fix (Dec (sgn (coef a) * sgn (coef b) * fst ce) (snd ce))) \<le> 0"
    by (rule dec_fix_nonpos)
  moreover have "dec_quot a b = dec_fix (Dec (sgn (coef a) * sgn (coef b) * fst ce) (snd ce))"
    unfolding dec_quot_def Let_def ce_def num_def den_def shift_def
    by (simp only: False if_False)
  ultimately show ?thesis by simp
qed

lemma dec_lt_pos_nonpos: "0 < c \<Longrightarrow> coef y \<le> 0 \<Longrightarrow> \<not> dec_lt (Dec c e) y"
proof -
  assume c: "0 < c" and y: "coef y \<le> 0"
  have "coef y * 10 ^ nat (expo y - min e (expo y)) \<le> 0"
    using y by (simp add: mult_le_0_iff)
  moreover have "0 < c * 10 ^ nat (e - min e (expo y))"
    using c by simp
  ultimately show ?thesis
    by (simp add: dec_lt_def aligned_def Let_def)
qed

text \<open>
  The test the code makes on the previous record, \<^verbatim>\<open>previous.final_salary\<close> being true and
  the ratio above 0.30, is the specification's: a negative previous final salary gives a
  ratio that is not positive.
\<close>

lemma anomaly_test:
  "(dec_truth p \<and> dec_lt (Dec 30 (- 2)) (dec_quot (dec_abs (dec_sub f p)) p)) = spec_anomaly f p"
proof (cases "coef p < 0")
  case True
  have "coef (dec_quot (dec_abs (dec_sub f p)) p) \<le> 0"
    using dec_abs_nonneg True by (rule dec_quot_nonpos)
  then have "\<not> dec_lt (Dec 30 (- 2)) (dec_quot (dec_abs (dec_sub f p)) p)"
    by (simp add: dec_lt_pos_nonpos)
  with True show ?thesis
    by (simp add: spec_anomaly_def dec_of_int_def dec_zero_lt_iff)
next
  case False
  then show ?thesis
    by (auto simp: spec_anomaly_def dec_of_int_def dec_zero_lt_iff dec_truth_def)
qed

section \<open>Decimals: equal values\<close>

text \<open>
  Two decimals compare by their coefficients written at any exponent that is not above
  either of theirs.
\<close>

lemma aligned_common:
  assumes "m \<le> expo a" and "m \<le> expo b"
  shows "coef a * 10 ^ nat (expo a - m) = fst (aligned a b) * 10 ^ nat (min (expo a) (expo b) - m)"
    and "coef b * 10 ^ nat (expo b - m) = snd (aligned a b) * 10 ^ nat (min (expo a) (expo b) - m)"
proof -
  let ?m0 = "min (expo a) (expo b)"
  have a: "nat (expo a - m) = nat (expo a - ?m0) + nat (?m0 - m)"
    using assms by (auto simp: min_def nat_add_distrib [symmetric])
  have b: "nat (expo b - m) = nat (expo b - ?m0) + nat (?m0 - m)"
    using assms by (auto simp: min_def nat_add_distrib [symmetric])
  show "coef a * 10 ^ nat (expo a - m) = fst (aligned a b) * 10 ^ nat (?m0 - m)"
    by (simp only: a power_add aligned_def Let_def fst_conv mult.assoc)
  show "coef b * 10 ^ nat (expo b - m) = snd (aligned a b) * 10 ^ nat (?m0 - m)"
    by (simp only: b power_add aligned_def Let_def snd_conv mult.assoc)
qed

lemma dec_eq_common:
  assumes "m \<le> expo a" and "m \<le> expo b"
  shows "dec_eq a b \<longleftrightarrow> coef a * 10 ^ nat (expo a - m) = coef b * 10 ^ nat (expo b - m)"
  unfolding aligned_common [OF assms] dec_eq_def by simp

lemma dec_lt_common:
  assumes "m \<le> expo a" and "m \<le> expo b"
  shows "dec_lt a b \<longleftrightarrow> coef a * 10 ^ nat (expo a - m) < coef b * 10 ^ nat (expo b - m)"
  unfolding aligned_common [OF assms] dec_lt_def by simp

lemma dec_eq_sym: "dec_eq a b \<Longrightarrow> dec_eq b a"
  by (auto simp: dec_eq_def aligned_def Let_def min.commute)

lemma dec_eq_trans:
  assumes "dec_eq a b" and "dec_eq b c"
  shows "dec_eq a c"
proof -
  define m where "m = min (expo a) (min (expo b) (expo c))"
  have m: "m \<le> expo a" "m \<le> expo b" "m \<le> expo c"
    by (simp_all add: m_def)
  from assms show ?thesis
    by (simp add: dec_eq_common [OF m(1) m(2)] dec_eq_common [OF m(2) m(3)]
        dec_eq_common [OF m(1) m(3)])
qed

lemma dec_lt_cong_left:
  assumes "dec_eq a a'"
  shows "dec_lt a b \<longleftrightarrow> dec_lt a' b"
proof -
  define m where "m = min (expo a) (min (expo a') (expo b))"
  have m: "m \<le> expo a" "m \<le> expo a'" "m \<le> expo b"
    by (simp_all add: m_def)
  from assms show ?thesis
    by (simp add: dec_eq_common [OF m(1) m(2)] dec_lt_common [OF m(1) m(3)]
        dec_lt_common [OF m(2) m(3)])
qed

lemma dec_max_cong:
  assumes "dec_eq a a'"
  shows "dec_eq (dec_max a b) (dec_max a' b)"
  using assms dec_lt_cong_left [OF assms, of b] by (simp add: dec_max_def dec_eq_refl)

lemma dec_eq_scaled: "dec_eq (Dec (c * 10 ^ j) (e - int j)) (Dec c e)"
  by (simp add: dec_eq_def aligned_def Let_def min_def)
text \<open>Trailing zeros of a coefficient do not change what it is rounded to.\<close>

lemma ndigits_times_10: "0 < c \<Longrightarrow> ndigits (c * 10) = Suc (ndigits c)"
  by (subst ndigits.simps) simp

lemma ndigits_times_power: "0 < c \<Longrightarrow> ndigits (c * 10 ^ j) = ndigits c + j"
proof (induction j)
  case 0
  then show ?case by simp
next
  case (Suc j)
  then have "0 < c * 10 ^ j" by simp
  from ndigits_times_10 [OF this] Suc show ?case
    by (simp add: mult.assoc mult.commute [of 10])
qed

lemma ndigits_zero: "ndigits 0 = 1"
  by (subst ndigits.simps) simp

lemma ndigits_bound: "0 \<le> c \<Longrightarrow> c < 10 ^ ndigits c"
proof (induction c rule: ndigits.induct)
  case (1 n)
  show ?case
  proof (cases "n < 10")
    case True
    then show ?thesis by (subst ndigits.simps) simp
  next
    case False
    with "1.prems" have "0 \<le> n div 10" by simp
    with "1.IH" False have "n div 10 < 10 ^ ndigits (n div 10)" by simp
    then have "n div 10 + 1 \<le> 10 ^ ndigits (n div 10)" by simp
    then have "10 * (n div 10 + 1) \<le> 10 * 10 ^ ndigits (n div 10)" by simp
    moreover have "n < 10 * (n div 10 + 1)"
      by presburger
    ultimately have "n < 10 * 10 ^ ndigits (n div 10)" by linarith
    with False show ?thesis by (subst ndigits.simps) simp
  qed
qed

lemma round_half_even_scaled:
  "round_half_even (c * 10 ^ j) (k + j) = round_half_even c k"
proof -
  have q: "(c * 10 ^ j) div 10 ^ (k + j) = c div 10 ^ k"
    by (simp add: power_add)
  have r: "(c * 10 ^ j) mod 10 ^ (k + j) = (c mod 10 ^ k) * 10 ^ j"
    by (simp add: power_add mult_mod_left)
  have p: "(0::int) < 10 ^ j"
    by simp
  have "(10 ^ k * 10 ^ j < (2 * (c mod 10 ^ k)) * (10::int) ^ j) = (10 ^ k < 2 * (c mod 10 ^ k))"
    using p by (rule mult_less_cancel_right_pos)
  then have c1: "(10 ^ (k + j) < 2 * ((c mod 10 ^ k) * (10::int) ^ j)) = (10 ^ k < 2 * (c mod 10 ^ k))"
    by (simp only: power_add mult.assoc)
  have "((2 * (c mod 10 ^ k)) * (10::int) ^ j = 10 ^ k * 10 ^ j) = (2 * (c mod 10 ^ k) = 10 ^ k)"
    using p by simp
  then have c2: "(2 * ((c mod 10 ^ k) * (10::int) ^ j) = 10 ^ (k + j)) = (2 * (c mod 10 ^ k) = 10 ^ k)"
    by (simp only: power_add mult.assoc)
  show ?thesis
    unfolding round_half_even_def Let_def q r c1 c2 ..
qed

lemma round_half_even_exact:
  assumes "k \<le> j"
  shows "round_half_even (c * 10 ^ j) k = c * 10 ^ (j - k)"
proof -
  from assms have j: "(10::int) ^ j = 10 ^ (j - k) * 10 ^ k"
    by (simp add: power_add [symmetric])
  have "(c * 10 ^ j) div 10 ^ k = c * 10 ^ (j - k)" "(c * 10 ^ j) mod 10 ^ k = 0"
    by (simp_all add: j)
  then show ?thesis
    by (simp add: round_half_even_def Let_def)
qed

lemma dec_fix_small: "ndigits \<bar>coef x\<bar> \<le> prec \<Longrightarrow> dec_fix x = x"
  by (simp add: dec_fix_def Let_def)

lemma dec_fix_zero: "coef x = 0 \<Longrightarrow> dec_fix x = x"
  by (rule dec_fix_small) (simp add: ndigits_zero prec_def)

lemma dec_fix_big:
  "prec < ndigits \<bar>c\<bar> \<Longrightarrow>
   dec_fix (Dec c e) =
     (if round_half_even \<bar>c\<bar> (ndigits \<bar>c\<bar> - prec) = 10 ^ prec
      then Dec (sgn c * 10 ^ (prec - 1)) (e + int (ndigits \<bar>c\<bar> - prec) + 1)
      else Dec (sgn c * round_half_even \<bar>c\<bar> (ndigits \<bar>c\<bar> - prec))
             (e + int (ndigits \<bar>c\<bar> - prec)))"
  by (simp add: dec_fix_def Let_def)

lemma dec_fix_scaled: "dec_eq (dec_fix (Dec (c * 10 ^ j) (e - int j))) (dec_fix (Dec c e))"
proof (cases "c = 0")
  case True
  then show ?thesis
    by (simp add: dec_fix_zero dec_eq_zero_iff)
next
  case False
  define a where "a = \<bar>c\<bar>"
  define n where "n = ndigits a"
  from False have a: "0 < a" by (simp add: a_def)
  have abs: "\<bar>c * 10 ^ j\<bar> = a * 10 ^ j"
    by (simp add: a_def abs_mult)
  have sg: "sgn (c * 10 ^ j) = sgn c"
    by (simp add: sgn_mult)
  have n': "ndigits \<bar>c * 10 ^ j\<bar> = n + j"
    unfolding abs n_def using a by (rule ndigits_times_power)
  have nc: "ndigits \<bar>c\<bar> = n"
    by (simp only: n_def a_def)
  have na: "ndigits (a * 10 ^ j) = n + j" "ndigits a = n"
    using n' by (simp_all only: abs n_def)
  consider "n + j \<le> prec" | "prec < n" | "n \<le> prec" "prec < n + j"
    by linarith
  then show ?thesis
  proof cases
    case 1
    with n' have "ndigits \<bar>coef (Dec (c * 10 ^ j) (e - int j))\<bar> \<le> prec"
      by simp
    then have "dec_fix (Dec (c * 10 ^ j) (e - int j)) = Dec (c * 10 ^ j) (e - int j)"
      by (rule dec_fix_small)
    moreover from 1 nc have "ndigits \<bar>coef (Dec c e)\<bar> \<le> prec"
      by simp
    then have "dec_fix (Dec c e) = Dec c e"
      by (rule dec_fix_small)
    ultimately show ?thesis
      by (simp only: dec_eq_scaled)
  next
    case 2
    then have k: "n + j - prec = (n - prec) + j"
      by simp
    from 2 have ex: "e - int j + int (n - prec + j) = e + int (n - prec)"
      by simp
    from 2 have b1: "prec < ndigits \<bar>c * 10 ^ j\<bar>" and b2: "prec < ndigits \<bar>c\<bar>"
      by (simp_all add: n' nc)
    have "dec_fix (Dec (c * 10 ^ j) (e - int j)) = dec_fix (Dec c e)"
      unfolding dec_fix_big [OF b1] dec_fix_big [OF b2] sg abs a_def [symmetric] na k
        round_half_even_scaled ex ..
    then show ?thesis
      by (simp only: dec_eq_refl)
  next
    case 3
    define k where "k = n + j - prec"
    from 3 have kj: "k \<le> j" and jk: "j - k = prec - n"
      by (simp_all add: k_def)
    have q: "round_half_even (a * 10 ^ j) k = a * 10 ^ (prec - n)"
      using round_half_even_exact [OF kj, of a] by (simp only: jk)
    have "a < 10 ^ n"
      unfolding n_def using a by (intro ndigits_bound) simp
    then have "a * 10 ^ (prec - n) < 10 ^ n * 10 ^ (prec - n)"
      by simp
    also have "\<dots> = 10 ^ prec"
      using 3 by (simp add: power_add [symmetric])
    finally have lt: "a * 10 ^ (prec - n) \<noteq> 10 ^ prec"
      by simp
    have sa: "sgn c * (a * 10 ^ (prec - n)) = c * 10 ^ (prec - n)"
      by (simp add: a_def mult.assoc [symmetric] mult_sgn_abs)
    have ex: "e - int j + int k = e - int (prec - n)"
      using 3 by (simp add: k_def)
    from 3 have b1: "prec < ndigits \<bar>c * 10 ^ j\<bar>"
      by (simp only: n')
    have l: "dec_fix (Dec (c * 10 ^ j) (e - int j)) = Dec (c * 10 ^ (prec - n)) (e - int (prec - n))"
      unfolding dec_fix_big [OF b1] sg abs na k_def [symmetric] q sa ex
      using lt by (simp only: if_False)
    from 3 nc have "ndigits \<bar>coef (Dec c e)\<bar> \<le> prec"
      by simp
    then have "dec_fix (Dec c e) = Dec c e"
      by (rule dec_fix_small)
    with l show ?thesis
      by (simp only: dec_eq_scaled)
  qed
qed

text \<open>Adding a zero gives the other operand, rounded by the context.\<close>

lemma dec_add_zero_left: "coef a = 0 \<Longrightarrow> dec_eq (dec_add a b) (dec_fix b)"
proof -
  assume z: "coef a = 0"
  define j where "j = nat (expo b - min (expo a) (expo b))"
  have m: "min (expo a) (expo b) = expo b - int j"
    by (simp add: j_def)
  have "dec_add a b = dec_fix (Dec (coef b * 10 ^ j) (expo b - int j))"
    using z by (simp add: dec_add_def aligned_def Let_def j_def [symmetric] m)
  with dec_fix_scaled [of "coef b" j "expo b"] show ?thesis
    by simp
qed

lemma dec_add_zero_right: "coef b = 0 \<Longrightarrow> dec_eq (dec_add a b) (dec_fix a)"
proof -
  assume z: "coef b = 0"
  define j where "j = nat (expo a - min (expo a) (expo b))"
  have m: "min (expo a) (expo b) = expo a - int j"
    by (simp add: j_def)
  have "dec_add a b = dec_fix (Dec (coef a * 10 ^ j) (expo a - int j))"
    using z by (simp add: dec_add_def aligned_def Let_def j_def [symmetric] m)
  with dec_fix_scaled [of "coef a" j "expo a"] show ?thesis
    by simp
qed

text \<open>
  Reading a zero operand as \<^verbatim>\<open>Decimal('0.00')\<close> does not change the value of a
  difference.
\<close>

lemma dec_sub_or_zero:
  "dec_eq (dec_sub (dec_or x (Dec 0 e1)) (dec_or y (Dec 0 e2))) (dec_sub x y)"
proof (cases "dec_truth x")
  case tx: True
  show ?thesis
  proof (cases "dec_truth y")
    case True
    with tx show ?thesis
      by (simp add: dec_or_def dec_eq_refl)
  next
    case False
    then have "coef (dec_neg y) = 0" "coef (dec_neg (Dec 0 e2)) = 0"
      by (simp_all add: dec_truth_def dec_neg_def)
    then have "dec_eq (dec_add x (dec_neg (Dec 0 e2))) (dec_fix x)"
        "dec_eq (dec_add x (dec_neg y)) (dec_fix x)"
      by (simp_all add: dec_add_zero_right)
    then have "dec_eq (dec_add x (dec_neg (Dec 0 e2))) (dec_add x (dec_neg y))"
      by (blast intro: dec_eq_trans dec_eq_sym)
    with tx False show ?thesis
      by (simp add: dec_or_def dec_sub_def)
  qed
next
  case fx: False
  then have x: "coef x = 0"
    by (simp add: dec_truth_def)
  show ?thesis
  proof (cases "dec_truth y")
    case True
    have "dec_eq (dec_add (Dec 0 e1) (dec_neg y)) (dec_fix (dec_neg y))"
        "dec_eq (dec_add x (dec_neg y)) (dec_fix (dec_neg y))"
      using x by (simp_all add: dec_add_zero_left)
    then have "dec_eq (dec_add (Dec 0 e1) (dec_neg y)) (dec_add x (dec_neg y))"
      by (blast intro: dec_eq_trans dec_eq_sym)
    with fx True show ?thesis
      by (simp add: dec_or_def dec_sub_def)
  next
    case False
    then have y: "coef (dec_neg y) = 0" "coef (dec_neg (Dec 0 e2)) = 0"
      by (simp_all add: dec_truth_def dec_neg_def)
    have "dec_eq (dec_add (Dec 0 e1) (dec_neg (Dec 0 e2))) (dec_fix (dec_neg (Dec 0 e2)))"
        "dec_eq (dec_add x (dec_neg y)) (dec_fix (dec_neg y))"
      using x by (simp_all add: dec_add_zero_left)
    moreover have "dec_eq (dec_fix (dec_neg (Dec 0 e2))) (dec_fix (dec_neg y))"
      using y by (simp add: dec_fix_zero dec_eq_def aligned_def Let_def)
    ultimately have "dec_eq (dec_add (Dec 0 e1) (dec_neg (Dec 0 e2))) (dec_add x (dec_neg y))"
      by (blast intro: dec_eq_trans dec_eq_sym)
    with fx False show ?thesis
      by (simp add: dec_or_def dec_sub_def)
  qed
qed

section \<open>Dates\<close>

lemma days_in_month_ge_28: "1 \<le> m \<Longrightarrow> m \<le> 12 \<Longrightarrow> 28 \<le> days_in_month y m"
  by (simp add: days_in_month_def DAYS_IN_MONTH_def)

lemma valid_first_of_month: "valid_date m \<Longrightarrow> valid_date (m\<lparr>d_day := 1\<rparr>)"
  using days_in_month_ge_28 [of "d_month m" "d_year m"] by (simp add: valid_date_def)

lemma replace_first:
  "valid_date m \<Longrightarrow> replace m (d_year m) (d_month m) 1 = Inr (m\<lparr>d_day := 1\<rparr>)"
  using valid_first_of_month [of m] by (simp add: replace_def)

lemma replace_next_month:
  assumes "valid_date m" and "\<not> (d_month m = 12 \<and> d_year m = 9999)"
  shows "(if d_month m = 12 then replace m (d_year m + 1) 1 1
          else replace m (d_year m) (d_month m + 1) 1) = Inr (spec_first_of_next_month m)"
proof (cases "d_month m = 12")
  case True
  with assms have "valid_date (m\<lparr>d_year := d_year m + 1, d_month := 1, d_day := 1\<rparr>)"
    by (simp add: valid_date_def days_in_month_def DAYS_IN_MONTH_def)
  with True show ?thesis
    by (simp add: replace_def spec_first_of_next_month_def)
next
  case False
  with assms have m: "1 \<le> d_month m + 1" "d_month m + 1 \<le> 12"
    by (simp_all add: valid_date_def)
  have "28 \<le> days_in_month (d_year m) (d_month m + 1)"
    using m by (rule days_in_month_ge_28)
  with assms m have "valid_date (m\<lparr>d_month := d_month m + 1, d_day := 1\<rparr>)"
    by (simp add: valid_date_def)
  with False show ?thesis
    by (simp add: replace_def spec_first_of_next_month_def)
qed

lemma month_window_ok:
  assumes "valid_date m" and "\<not> (d_month m = 12 \<and> d_year m = 9999)"
  shows "month_window m = Inr (spec_first_of_month m, spec_first_of_next_month m)"
  unfolding month_window_def
  by (simp only: replace_first [OF assms(1)] replace_next_month [OF assms] sum.case
      spec_first_of_month_def)

lemma month_window_december_9999:
  assumes "valid_date m" and "d_month m = 12" and "d_year m = 9999"
  shows "month_window m = Inl ValueError"
  using assms replace_first [OF assms(1)]
  by (simp add: month_window_def replace_def valid_date_def)

lemma month_window_Inr:
  assumes "month_window m = Inr (a, b)"
  shows "a = spec_first_of_month m \<and> b = spec_first_of_next_month m"
  using assms
  by (auto simp: month_window_def replace_def spec_first_of_month_def
      spec_first_of_next_month_def Let_def split: if_splits sum.splits)

section \<open>attendance_flag\<close>

lemma attendance_flag_no_month:
  "attendance_flag tbl e None =
     Inr (spec_flag (spec_count tbl e None STATUS_LATE) (spec_count tbl e None STATUS_ABSENT))"
  by (simp add: attendance_flag_def spec_flag_def spec_count_def spec_relevant_def
      spec_in_scope_def Let_def conj_commute conj_left_commute)

lemma attendance_flag_month:
  assumes "valid_date m" and "\<not> (d_month m = 12 \<and> d_year m = 9999)"
  shows "attendance_flag tbl e (Some m) =
     Inr (spec_flag (spec_count tbl e (Some m) STATUS_LATE)
                    (spec_count tbl e (Some m) STATUS_ABSENT))"
  by (simp add: attendance_flag_def month_window_ok [OF assms] Let_def spec_flag_def
      spec_count_def spec_relevant_def spec_in_scope_def conj_commute conj_left_commute)

text \<open>
  C3. The flag is decided by the numbers of Approved Late and Approved Absent entries of
  the employee in scope: more than four Late entries give "Frequently Late"; otherwise
  at least three Absent and at least three Late entries give "Irregular Attendance";
  otherwise the flag is "Stable Attendance". The scope is every date when no month is
  given, and the month's window otherwise.
\<close>

theorem attendance_flag_classification:
  assumes "has_window month"
  shows "attendance_flag tbl employee month =
           Inr (let late_count = spec_count tbl employee month STATUS_LATE;
                    absent_count = spec_count tbl employee month STATUS_ABSENT
                in if late_count > 4 then ''Frequently Late''
                   else if absent_count \<ge> 3 \<and> late_count \<ge> 3 then ''Irregular Attendance''
                   else ''Stable Attendance'')"
proof (cases month)
  case None
  then show ?thesis
    using attendance_flag_no_month [of tbl employee] by (simp add: spec_flag_def Let_def)
next
  case (Some m)
  with assms have "valid_date m" and "\<not> (d_month m = 12 \<and> d_year m = 9999)"
    by (simp_all add: has_window_def)
  from attendance_flag_month [OF this, of tbl employee] Some show ?thesis
    by (simp add: spec_flag_def Let_def)
qed
theorem attendance_flag_classification_witness:
  "has_window (Some (ymd 2024 3 15)) \<and>
   attendance_flag ex_history ex_alice (Some (ymd 2024 3 15)) = Inr ''Frequently Late''"
proof -
  have w: "has_window (Some (ymd 2024 3 15))"
    by (simp add: has_window_def valid_date_def ymd_def days_in_month_def DAYS_IN_MONTH_def)
  have "spec_count ex_history ex_alice (Some (ymd 2024 3 15)) STATUS_LATE = 5"
    by (simp add: spec_count_def spec_relevant_def spec_in_scope_def spec_first_of_month_def
        spec_first_of_next_month_def ex_history_def ex_att_def ex_alice_def ex_user_def ymd_def
        date_le_def date_lt_def)
  with w attendance_flag_classification [OF w, of ex_history ex_alice] show ?thesis
    by simp
qed

section \<open>Noninterference of entries that are not counted\<close>

lemma length_filter_mset_cong:
  assumes "mset (filter R xs) = mset (filter R ys)"
  shows "length (filter (\<lambda>r. R r \<and> Q r) xs) = length (filter (\<lambda>r. R r \<and> Q r) ys)"
proof -
  have "mset (filter Q (filter R xs)) = mset (filter Q (filter R ys))"
    using assms by (metis mset_filter)
  then have "length (filter Q (filter R xs)) = length (filter Q (filter R ys))"
    by (metis size_mset)
  then show ?thesis by (simp add: conj_commute)
qed

lemma spec_count_cong:
  assumes "mset (filter (spec_relevant e month) h1) = mset (filter (spec_relevant e month) h2)"
  shows "spec_count h1 e month s = spec_count h2 e month s"
  unfolding spec_count_def using assms by (rule length_filter_mset_cong)

lemma attendance_flag_error_independent:
  assumes "month_window m = Inl err"
  shows "attendance_flag h1 e (Some m) = attendance_flag h2 e (Some m)"
  using assms by (simp add: attendance_flag_def Let_def)

lemma attendance_flag_Some_spec:
  assumes "month_window m = Inr w"
  shows "attendance_flag tbl e (Some m) =
     Inr (spec_flag (spec_count tbl e (Some m) STATUS_LATE)
                    (spec_count tbl e (Some m) STATUS_ABSENT))"
proof -
  obtain a b where w: "w = (a, b)" by (cases w)
  with assms month_window_Inr [of m a b]
  have "month_window m = Inr (spec_first_of_month m, spec_first_of_next_month m)" by simp
  then show ?thesis
    by (simp add: attendance_flag_def Let_def spec_flag_def
      spec_count_def spec_relevant_def spec_in_scope_def conj_commute conj_left_commute)
qed

text \<open>
  C8. The flag depends only on the employee's Approved entries in scope (every date
  when no month is given, the half-open window from the first day of the month to the
  first day of the next month otherwise): two histories with the same such entries get
  the same result, whatever their Pending and Rejected entries, their entries of other
  employees and their entries outside the window are.
\<close>

theorem attendance_flag_noninterference:
  assumes "mset (filter (spec_relevant employee month) h1) =
           mset (filter (spec_relevant employee month) h2)"
  shows "attendance_flag h1 employee month = attendance_flag h2 employee month"
proof -
  have c: "\<And>s. spec_count h1 employee month s = spec_count h2 employee month s"
    using assms by (rule spec_count_cong)
  show ?thesis
  proof (cases month)
    case None
    with c [of STATUS_LATE] c [of STATUS_ABSENT] show ?thesis
      by (simp add: attendance_flag_no_month)
  next
    case (Some m)
    show ?thesis
    proof (cases "month_window m")
      case (Inl err)
      with Some show ?thesis
        using attendance_flag_error_independent [OF Inl, of h1 employee h2] by simp
    next
      case (Inr w)
      with Some c [of STATUS_LATE] c [of STATUS_ABSENT] show ?thesis
        by (simp add: attendance_flag_Some_spec [OF Inr])
    qed
  qed
qed

theorem attendance_flag_noninterference_witness:
  "mset (filter (spec_relevant ex_alice (Some (ymd 2024 3 15))) ex_history) =
   mset (filter (spec_relevant ex_alice (Some (ymd 2024 3 15)))
           (ex_att ex_alice (ymd 2024 3 20) STATUS_ABSENT REVIEW_REJECTED # rev ex_history)) \<and>
   attendance_flag ex_history ex_alice (Some (ymd 2024 3 15)) =
   attendance_flag (ex_att ex_alice (ymd 2024 3 20) STATUS_ABSENT REVIEW_REJECTED # rev ex_history)
     ex_alice (Some (ymd 2024 3 15))"
proof -
  have h: "mset (filter (spec_relevant ex_alice (Some (ymd 2024 3 15))) ex_history) =
     mset (filter (spec_relevant ex_alice (Some (ymd 2024 3 15)))
           (ex_att ex_alice (ymd 2024 3 20) STATUS_ABSENT REVIEW_REJECTED # rev ex_history))"
    by (simp add: spec_relevant_def ex_att_def rev_filter [symmetric])
  from h attendance_flag_noninterference [OF h] show ?thesis by simp
qed

section \<open>Leave recommendation\<close>

lemma overlapping_ids:
  "set (map (\<lambda>l. u_id (lr_employee l))
         (filter (\<lambda>l. u_id (lr_employee l) \<in> set (map u_id team) \<and>
                       lr_status l = STATUS_APPROVED \<and>
                       date_le (lr_start_date l) t \<and> date_le s (lr_end_date l)) leaves)) =
   set (map u_id (filter (spec_on_leave leaves s t) team))"
proof (intro equalityI subsetI)
  fix i
  assume "i \<in> set (map (\<lambda>l. u_id (lr_employee l))
         (filter (\<lambda>l. u_id (lr_employee l) \<in> set (map u_id team) \<and>
                       lr_status l = STATUS_APPROVED \<and>
                       date_le (lr_start_date l) t \<and> date_le s (lr_end_date l)) leaves))"
  then obtain l u where l: "l \<in> set leaves" "i = u_id (lr_employee l)"
      "lr_status l = STATUS_APPROVED" "date_le (lr_start_date l) t" "date_le s (lr_end_date l)"
    and u: "u \<in> set team" "u_id u = u_id (lr_employee l)"
    by auto
  from l u have "spec_on_leave leaves s t u"
    by (auto simp: spec_on_leave_def spec_overlaps_def list_ex_iff)
  with u(1) have "u \<in> set (filter (spec_on_leave leaves s t) team)"
    by simp
  then have "u_id u \<in> u_id ` set (filter (spec_on_leave leaves s t) team)"
    by (rule imageI)
  with u(2) l(2) show "i \<in> set (map u_id (filter (spec_on_leave leaves s t) team))"
    by simp
next
  fix i
  assume "i \<in> set (map u_id (filter (spec_on_leave leaves s t) team))"
  then obtain u where u: "u \<in> set team" "i = u_id u" "spec_on_leave leaves s t u"
    by auto
  then obtain l where l: "l \<in> set leaves" "u_id (lr_employee l) = u_id u"
      "lr_status l = STATUS_APPROVED" "date_le (lr_start_date l) t" "date_le s (lr_end_date l)"
    by (auto simp: spec_on_leave_def spec_overlaps_def list_ex_iff)
  from u(1) have "u_id u \<in> u_id ` set team"
    by (rule imageI)
  with l have "l \<in> set (filter (\<lambda>l. u_id (lr_employee l) \<in> set (map u_id team) \<and>
                       lr_status l = STATUS_APPROVED \<and>
                       date_le (lr_start_date l) t \<and> date_le s (lr_end_date l)) leaves)"
    by simp
  then have "u_id (lr_employee l) \<in> (\<lambda>l. u_id (lr_employee l)) `
       set (filter (\<lambda>l. u_id (lr_employee l) \<in> set (map u_id team) \<and>
                       lr_status l = STATUS_APPROVED \<and>
                       date_le (lr_start_date l) t \<and> date_le s (lr_end_date l)) leaves)"
    by (rule imageI)
  with l(2) u(2) show "i \<in> set (map (\<lambda>l. u_id (lr_employee l))
         (filter (\<lambda>l. u_id (lr_employee l) \<in> set (map u_id team) \<and>
                       lr_status l = STATUS_APPROVED \<and>
                       date_le (lr_start_date l) t \<and> date_le s (lr_end_date l)) leaves))"
    by simp
qed

lemma overlapping_distinct_count:
  assumes "distinct (map u_id team)"
  shows "length (remdups (map (\<lambda>l. u_id (lr_employee l))
           (filter (\<lambda>l. u_id (lr_employee l) \<in> set (map u_id team) \<and>
                         lr_status l = STATUS_APPROVED \<and>
                         date_le (lr_start_date l) t \<and> date_le s (lr_end_date l)) leaves))) =
         length (filter (spec_on_leave leaves s t) team)"
proof -
  have "distinct (map u_id (filter (spec_on_leave leaves s t) team))"
    using assms by (rule distinct_map_filter)
  then have "card (set (map u_id (filter (spec_on_leave leaves s t) team))) =
             length (filter (spec_on_leave leaves s t) team)"
    by (metis distinct_card length_map)
  then show ?thesis
    by (simp only: length_remdups_card_conv overlapping_ids)
qed

text \<open>
  C5. With one row per user key: an employee without department has an available
  team; so has an employee without teammates; otherwise the team is available exactly
  when the number of teammates minus the number of teammates with an overlapping
  Approved request is at least one.
\<close>

theorem team_available_spec:
  assumes "distinct (map u_id users)"
  shows "team_available users leaves employee start_date end_date =
         spec_team_available users leaves employee start_date end_date"
proof -
  have "distinct (map u_id (spec_team users employee))"
    unfolding spec_team_def using assms by (rule distinct_map_filter)
  from overlapping_distinct_count [OF this, of end_date start_date leaves]
  show ?thesis
    by (simp add: team_available_def spec_team_available_def Let_def spec_team_def)
qed

theorem team_available_spec_witness:
  "distinct (map u_id ex_users) \<and>
   team_available ex_users ex_leaves ex_alice (ymd 2024 3 5) (ymd 2024 3 9) \<and>
   spec_team_available ex_users ex_leaves ex_alice (ymd 2024 3 5) (ymd 2024 3 9) \<and>
   \<not> team_available ex_users
        (ex_leave (ex_user 3 ''ops'' 12) (ymd 2024 3 9) (ymd 2024 3 20) STATUS_APPROVED # ex_leaves)
        ex_alice (ymd 2024 3 5) (ymd 2024 3 9)"
proof -
  have d: "distinct (map u_id ex_users)"
    by (simp add: ex_users_def ex_user_def ex_alice_def)
  have a: "spec_team_available ex_users ex_leaves ex_alice (ymd 2024 3 5) (ymd 2024 3 9)"
    by (simp add: spec_team_available_def spec_team_def spec_on_leave_def spec_overlaps_def
        ex_users_def ex_leaves_def ex_user_def ex_alice_def ex_leave_def ymd_def
        date_le_def date_lt_def)
  have b: "\<not> spec_team_available ex_users
        (ex_leave (ex_user 3 ''ops'' 12) (ymd 2024 3 9) (ymd 2024 3 20) STATUS_APPROVED # ex_leaves)
        ex_alice (ymd 2024 3 5) (ymd 2024 3 9)"
    by (simp add: spec_team_available_def spec_team_def spec_on_leave_def spec_overlaps_def
        ex_users_def ex_leaves_def ex_user_def ex_alice_def ex_leave_def ymd_def
        date_le_def date_lt_def)
  from d a b team_available_spec [OF d] show ?thesis by simp
qed

text \<open>
  C4. The recommendation is "Suggest Approve" exactly when the employee's leave balance
  covers the request's total days and the team is available; it is "Suggest Review" in
  every other case, and a balance below the total days gives "Suggest Review" whatever
  the users and leave tables are.
\<close>

theorem leave_recommendation_spec:
  "(leave_recommendation users leaves leave_request = ''Suggest Approve'' \<longleftrightarrow>
      leave_balance (lr_employee leave_request) \<ge> total_days leave_request \<and>
      team_available users leaves (lr_employee leave_request)
        (lr_start_date leave_request) (lr_end_date leave_request)) \<and>
   (leave_recommendation users leaves leave_request \<noteq> ''Suggest Approve'' \<longrightarrow>
      leave_recommendation users leaves leave_request = ''Suggest Review'') \<and>
   (leave_balance (lr_employee leave_request) < total_days leave_request \<longrightarrow>
      (\<forall>users' leaves'. leave_recommendation users' leaves' leave_request = ''Suggest Review''))"
  by (simp add: leave_recommendation_def)

theorem leave_recommendation_spec_witness:
  "total_days ex_request = 5 \<and>
   leave_recommendation ex_users ex_leaves ex_request = ''Suggest Approve'' \<and>
   leave_recommendation ex_users ex_leaves
     (ex_request\<lparr>lr_employee := ex_user 1 ''ops'' 3\<rparr>) = ''Suggest Review'' \<and>
   leave_recommendation ex_users
     (ex_leave (ex_user 3 ''ops'' 12) (ymd 2024 3 9) (ymd 2024 3 20) STATUS_APPROVED # ex_leaves)
     ex_request = ''Suggest Review''"
proof -
  have t: "total_days ex_request = 5"
    by (simp add: total_days_def ex_request_def ex_leave_def ymd_def toordinal_def
        days_before_year_def days_before_month_def is_leap_def DAYS_IN_MONTH_def
        eval_nat_numeral)
  have t3: "total_days (ex_request\<lparr>lr_employee := ex_user 1 ''ops'' 3\<rparr>) = 5"
    using t by (simp add: total_days_def)
  have b: "leave_balance (lr_employee ex_request) = 10"
    by (simp add: ex_request_def ex_leave_def ex_alice_def ex_user_def)
  have a: "team_available ex_users ex_leaves (lr_employee ex_request)
      (lr_start_date ex_request) (lr_end_date ex_request)"
    by (simp add: team_available_def ex_request_def
        ex_users_def ex_leaves_def ex_user_def ex_alice_def ex_leave_def ymd_def
        date_le_def date_lt_def)
  have n: "\<not> team_available ex_users
      (ex_leave (ex_user 3 ''ops'' 12) (ymd 2024 3 9) (ymd 2024 3 20) STATUS_APPROVED # ex_leaves)
      (lr_employee ex_request) (lr_start_date ex_request) (lr_end_date ex_request)"
    by (simp add: team_available_def ex_request_def
        ex_users_def ex_leaves_def ex_user_def ex_alice_def ex_leave_def ymd_def
        date_le_def date_lt_def)
  have r: "leave_balance (lr_employee (ex_request\<lparr>lr_employee := ex_user 1 ''ops'' 3\<rparr>)) = 3"
    by (simp add: ex_user_def)
  have 1: "leave_recommendation ex_users ex_leaves ex_request = ''Suggest Approve''"
    using leave_recommendation_spec [of ex_users ex_leaves ex_request, THEN conjunct1] t b a
    by simp
  have 2: "leave_recommendation ex_users ex_leaves
     (ex_request\<lparr>lr_employee := ex_user 1 ''ops'' 3\<rparr>) = ''Suggest Review''"
    using leave_recommendation_spec [of ex_users ex_leaves
        "ex_request\<lparr>lr_employee := ex_user 1 ''ops'' 3\<rparr>", THEN conjunct2, THEN conjunct2,
        rule_format, of ex_users ex_leaves] t3 r
    by simp
  have "leave_recommendation ex_users
     (ex_leave (ex_user 3 ''ops'' 12) (ymd 2024 3 9) (ymd 2024 3 20) STATUS_APPROVED # ex_leaves)
     ex_request \<noteq> ''Suggest Approve''"
    using leave_recommendation_spec [of ex_users
        "ex_leave (ex_user 3 ''ops'' 12) (ymd 2024 3 9) (ymd 2024 3 20) STATUS_APPROVED # ex_leaves"
        ex_request, THEN conjunct1] n
    by simp
  then have 3: "leave_recommendation ex_users
     (ex_leave (ex_user 3 ''ops'' 12) (ymd 2024 3 9) (ymd 2024 3 20) STATUS_APPROVED # ex_leaves)
     ex_request = ''Suggest Review''"
    using leave_recommendation_spec [of ex_users
        "ex_leave (ex_user 3 ''ops'' 12) (ymd 2024 3 9) (ymd 2024 3 20) STATUS_APPROVED # ex_leaves"
        ex_request, THEN conjunct2, THEN conjunct1]
    by (rule rev_mp)
  from t 1 2 3 show ?thesis
    by (intro conjI)
qed

section \<open>payslip_summary\<close>

text \<open>
  The deduction and the rate as the function computes them: the record's base and final
  salary, a zero read as \<^verbatim>\<open>Decimal('0.00')\<close>; the rate is 0.00 for a zero base.
\<close>

lemma payslip_summary_Inr:
  "payslip_summary r =
     (let base = dec_or (sr_base_salary r) (Dec 0 (- 2));
          final = dec_or (sr_final_salary r) (Dec 0 (- 2));
          ded = dec_max (dec_sub base final) (Dec 0 (- 2));
          rate = (if dec_truth base then dec_mul (dec_quot ded base) (Dec 100 0) else Dec 0 (- 2))
      in Inr \<lparr>headline =
                (if dec_eq ded (dec_of_int 0) then ''Full payout expected for this month.''
                 else if dec_ge rate (Dec 20 0) then ''Significant deductions detected this month.''
                 else ''Minor deductions applied to this month.''),
              insights =
                (let ins = (if dec_eq ded (dec_of_int 0)
                            then [''No attendance deductions were applied.''] else []) @
                           (if sr_absent_days r \<noteq> 0
                            then [str_int (sr_absent_days r) @ '' day(s) marked absent.'']
                            else []) @
                           (if sr_late_days r \<noteq> 0
                            then [str_int (sr_late_days r) @ '' day(s) marked late.'']
                            else [])
                 in if ins = [] then [''Attendance signals are stable for this period.'']
                    else ins),
              warnings =
                (if sr_anomaly_flag r
                 then [''Salary changed by more than 30% compared to last month.''] else []) @
                (if dec_lt (dec_of_int 0) ded
                 then [''Deduction total: '' @ format_f 2 ded @ '' ('' @ format_f 1 rate @
                       ''% of base pay).'']
                 else []),
              deduction = ded, deduction_rate = rate\<rparr>)"
  by (simp add: payslip_summary_def Let_def dec_div_def dec_truth_def)
lemma payslip_summary_spec:
  "payslip_summary r =
     (let base = dec_or (sr_base_salary r) (Dec 0 (- 2));
          final = dec_or (sr_final_salary r) (Dec 0 (- 2));
          ded = spec_deduction base final;
          rate = (if dec_truth base then dec_mul (dec_quot ded base) (Dec 100 0) else Dec 0 (- 2))
      in Inr \<lparr>headline = spec_headline ded rate,
              insights =
                (let ins = (if dec_eq ded (dec_of_int 0)
                            then [''No attendance deductions were applied.''] else []) @
                           spec_day_lines r
                 in if ins = [] then [''Attendance signals are stable for this period.'']
                    else ins),
              warnings =
                (if sr_anomaly_flag r
                 then [''Salary changed by more than 30% compared to last month.''] else []) @
                (if dec_lt (dec_of_int 0) ded then [spec_deduction_line ded rate] else []),
              deduction = ded, deduction_rate = rate\<rparr>)"
  by (simp add: payslip_summary_Inr Let_def spec_deduction_def spec_headline_def
      spec_day_lines_def spec_absent_line_def spec_late_line_def spec_deduction_line_def)

text \<open>
  C6. The summary is always produced (no division error). Its deduction equals
  max(base_salary - final_salary, 0.00) in value; it is computed from the two salaries
  with a zero read as 0.00, and is that very decimal when neither salary is zero. For a
  positive base salary the rate is deduction / base_salary * 100, and the division is
  defined; for a zero base salary it is 0.00. The headline is "Full payout expected for
  this month." when the deduction is zero, else "Significant deductions detected this
  month." when the rate is at least 20, else "Minor deductions applied to this month.".
\<close>

theorem payslip_summary_deduction_rate_headline:
  "\<exists>s. payslip_summary r = Inr s \<and>
     deduction s = spec_deduction (dec_or (sr_base_salary r) (Dec 0 (- 2)))
                                  (dec_or (sr_final_salary r) (Dec 0 (- 2))) \<and>
     dec_eq (deduction s) (spec_deduction (sr_base_salary r) (sr_final_salary r)) \<and>
     (dec_truth (sr_base_salary r) \<and> dec_truth (sr_final_salary r) \<longrightarrow>
        deduction s = spec_deduction (sr_base_salary r) (sr_final_salary r)) \<and>
     (dec_lt (dec_of_int 0) (sr_base_salary r) \<longrightarrow>
        dec_div (deduction s) (sr_base_salary r) = Inr (dec_quot (deduction s) (sr_base_salary r)) \<and>
        deduction_rate s = dec_mul (dec_quot (deduction s) (sr_base_salary r)) (Dec 100 0)) \<and>
     (dec_eq (sr_base_salary r) (dec_of_int 0) \<longrightarrow> deduction_rate s = Dec 0 (- 2)) \<and>
     headline s = spec_headline (deduction s) (deduction_rate s)"
proof -
  have pos: "dec_lt (dec_of_int 0) (sr_base_salary r) \<Longrightarrow>
      dec_truth (sr_base_salary r) \<and> dec_or (sr_base_salary r) (Dec 0 (- 2)) = sr_base_salary r"
    by (simp add: dec_of_int_def dec_zero_lt_iff dec_truth_def dec_or_def)
  have zero: "dec_eq (sr_base_salary r) (dec_of_int 0) \<Longrightarrow>
      \<not> dec_truth (dec_or (sr_base_salary r) (Dec 0 (- 2)))"
    by (simp add: dec_of_int_def dec_eq_zero_iff dec_truth_def dec_or_def)
  have nz: "dec_truth (sr_base_salary r) \<and> dec_truth (sr_final_salary r) \<Longrightarrow>
      dec_or (sr_base_salary r) (Dec 0 (- 2)) = sr_base_salary r \<and>
      dec_or (sr_final_salary r) (Dec 0 (- 2)) = sr_final_salary r"
    by (simp add: dec_or_def)
  have val: "dec_eq (spec_deduction (dec_or (sr_base_salary r) (Dec 0 (- 2)))
                                    (dec_or (sr_final_salary r) (Dec 0 (- 2))))
                    (spec_deduction (sr_base_salary r) (sr_final_salary r))"
    unfolding spec_deduction_def by (intro dec_max_cong dec_sub_or_zero)
  show ?thesis
    unfolding payslip_summary_spec Let_def
    using pos zero nz val
    by (auto simp: dec_div_def dec_truth_def)
qed
lemma ex_payslip_deduction:
  "spec_deduction (dec_or (sr_base_salary ex_payslip) (Dec 0 (- 2)))
                  (dec_or (sr_final_salary ex_payslip) (Dec 0 (- 2))) = Dec 25000 (- 2)"
  by code_simp

lemma ex_payslip_rate:
  "dec_mul (dec_quot (Dec 25000 (- 2)) (sr_base_salary ex_payslip)) (Dec 100 0) = Dec 2500 (- 2)"
  by code_simp

lemma ex_payslip_base: "dec_lt (dec_of_int 0) (sr_base_salary ex_payslip)"
  by code_simp

lemma ex_payslip_headline:
  "spec_headline (Dec 25000 (- 2)) (Dec 2500 (- 2)) = ''Significant deductions detected this month.''"
  by code_simp

theorem payslip_summary_deduction_rate_headline_witness:
  "dec_lt (dec_of_int 0) (sr_base_salary ex_payslip) \<and>
   map_sum id deduction (payslip_summary ex_payslip) = Inr (Dec 25000 (- 2)) \<and>
   map_sum id deduction_rate (payslip_summary ex_payslip) = Inr (Dec 2500 (- 2)) \<and>
   map_sum id headline (payslip_summary ex_payslip) =
     Inr ''Significant deductions detected this month.''"
proof -
  from payslip_summary_deduction_rate_headline [of ex_payslip]
  obtain s where s: "payslip_summary ex_payslip = Inr s"
    and d: "deduction s = spec_deduction (dec_or (sr_base_salary ex_payslip) (Dec 0 (- 2)))
                                  (dec_or (sr_final_salary ex_payslip) (Dec 0 (- 2)))"
    and r: "dec_lt (dec_of_int 0) (sr_base_salary ex_payslip) \<longrightarrow>
        dec_div (deduction s) (sr_base_salary ex_payslip) =
          Inr (dec_quot (deduction s) (sr_base_salary ex_payslip)) \<and>
        deduction_rate s = dec_mul (dec_quot (deduction s) (sr_base_salary ex_payslip)) (Dec 100 0)"
    and h: "headline s = spec_headline (deduction s) (deduction_rate s)"
    by blast
  from d have d': "deduction s = Dec 25000 (- 2)"
    by (simp only: ex_payslip_deduction)
  from r ex_payslip_base d' have r': "deduction_rate s = Dec 2500 (- 2)"
    by (simp only: ex_payslip_rate)
  from h d' r' have h': "headline s = ''Significant deductions detected this month.''"
    by (simp only: ex_payslip_headline)
  from s d' r' h' ex_payslip_base show ?thesis
    by simp
qed
section \<open>The lines of a payslip are different texts\<close>

lemma absent_line_not_late_line: "spec_absent_line r \<noteq> spec_late_line r'"
proof
  assume "spec_absent_line r = spec_late_line r'"
  then have "rev (spec_absent_line r) = rev (spec_late_line r')" by simp
  then show False by (simp add: spec_absent_line_def spec_late_line_def)
qed

lemma absent_line_not_fixed:
  "spec_absent_line r \<noteq> ''No attendance deductions were applied.''"
  "spec_absent_line r \<noteq> ''Attendance signals are stable for this period.''"
proof -
  show "spec_absent_line r \<noteq> ''No attendance deductions were applied.''"
  proof
    assume "spec_absent_line r = ''No attendance deductions were applied.''"
    then have "rev (spec_absent_line r) = rev ''No attendance deductions were applied.''"
      by simp
    then show False by (simp add: spec_absent_line_def)
  qed
  show "spec_absent_line r \<noteq> ''Attendance signals are stable for this period.''"
  proof
    assume "spec_absent_line r = ''Attendance signals are stable for this period.''"
    then have "rev (spec_absent_line r) = rev ''Attendance signals are stable for this period.''"
      by simp
    then show False by (simp add: spec_absent_line_def)
  qed
qed

lemma late_line_not_fixed:
  "spec_late_line r \<noteq> ''No attendance deductions were applied.''"
  "spec_late_line r \<noteq> ''Attendance signals are stable for this period.''"
proof -
  show "spec_late_line r \<noteq> ''No attendance deductions were applied.''"
  proof
    assume "spec_late_line r = ''No attendance deductions were applied.''"
    then have "rev (spec_late_line r) = rev ''No attendance deductions were applied.''"
      by simp
    then show False by (simp add: spec_late_line_def)
  qed
  show "spec_late_line r \<noteq> ''Attendance signals are stable for this period.''"
  proof
    assume "spec_late_line r = ''Attendance signals are stable for this period.''"
    then have "rev (spec_late_line r) = rev ''Attendance signals are stable for this period.''"
      by simp
    then show False by (simp add: spec_late_line_def)
  qed
qed

lemma day_lines_members:
  "set (spec_day_lines r) =
     (if sr_absent_days r \<noteq> 0 then {spec_absent_line r} else {}) \<union>
     (if sr_late_days r \<noteq> 0 then {spec_late_line r} else {})"
  by (simp add: spec_day_lines_def)

lemma day_lines_empty: "spec_day_lines r = [] \<longleftrightarrow> sr_absent_days r = 0 \<and> sr_late_days r = 0"
  by (simp add: spec_day_lines_def)

lemma payslip_insights:
  "payslip_summary r = Inr s \<Longrightarrow>
   insights s =
     (if dec_eq (deduction s) (dec_of_int 0)
      then ''No attendance deductions were applied.'' # spec_day_lines r
      else if spec_day_lines r = [] then [''Attendance signals are stable for this period.'']
      else spec_day_lines r)"
  by (auto simp: payslip_summary_spec Let_def)

lemma payslip_warnings:
  "payslip_summary r = Inr s \<Longrightarrow>
   warnings s =
     (if sr_anomaly_flag r
      then [''Salary changed by more than 30% compared to last month.''] else []) @
     (if dec_lt (dec_of_int 0) (deduction s)
      then [spec_deduction_line (deduction s) (deduction_rate s)] else [])"
  by (auto simp: payslip_summary_spec Let_def)

lemma payslip_deduction_sign:
  "payslip_summary r = Inr s \<Longrightarrow>
   dec_lt (dec_of_int 0) (deduction s) \<longleftrightarrow> \<not> dec_eq (deduction s) (dec_of_int 0)"
  using dec_max_zero_coef [of "dec_sub (dec_or (sr_base_salary r) (Dec 0 (- 2)))
      (dec_or (sr_final_salary r) (Dec 0 (- 2)))" "- 2"]
  by (auto simp: payslip_summary_spec Let_def spec_deduction_def dec_of_int_def
      dec_zero_lt_iff dec_eq_zero_iff)

text \<open>
  C7. The insights hold the absent line exactly when absent_days is nonzero and the late
  line exactly when late_days is nonzero, absent before late; a zero deduction puts "No
  attendance deductions were applied." in front of them; when nothing was collected the
  insights are the one line "Attendance signals are stable for this period.". The warnings
  are the anomaly line when the flag is set, followed by the deduction line when the
  deduction is positive, and nothing else.
\<close>

theorem payslip_summary_insights_warnings:
  "\<exists>s. payslip_summary r = Inr s \<and>
     (spec_absent_line r \<in> set (insights s) \<longleftrightarrow> sr_absent_days r \<noteq> 0) \<and>
     (spec_late_line r \<in> set (insights s) \<longleftrightarrow> sr_late_days r \<noteq> 0) \<and>
     (dec_eq (deduction s) (dec_of_int 0) \<longrightarrow>
        insights s = ''No attendance deductions were applied.'' # spec_day_lines r) \<and>
     (\<not> dec_eq (deduction s) (dec_of_int 0) \<and> spec_day_lines r \<noteq> [] \<longrightarrow>
        insights s = spec_day_lines r) \<and>
     (\<not> dec_eq (deduction s) (dec_of_int 0) \<and> spec_day_lines r = [] \<longrightarrow>
        insights s = [''Attendance signals are stable for this period.'']) \<and>
     warnings s =
       (if sr_anomaly_flag r
        then [''Salary changed by more than 30% compared to last month.''] else []) @
       (if dec_lt (dec_of_int 0) (deduction s)
        then [spec_deduction_line (deduction s) (deduction_rate s)] else [])"
proof -
  obtain s where s: "payslip_summary r = Inr s"
    by (simp add: payslip_summary_spec Let_def)
  note i = payslip_insights [OF s]
  have a: "spec_absent_line r \<in> set (insights s) \<longleftrightarrow> sr_absent_days r \<noteq> 0"
    unfolding i
    using absent_line_not_late_line [of r r] absent_line_not_fixed [of r]
    by (auto simp: day_lines_members day_lines_empty)
  have l: "spec_late_line r \<in> set (insights s) \<longleftrightarrow> sr_late_days r \<noteq> 0"
    unfolding i
    using absent_line_not_late_line [of r r] late_line_not_fixed [of r]
    by (auto simp: day_lines_members day_lines_empty)
  from s a l i payslip_warnings [OF s] show ?thesis
    by auto
qed

text \<open>
  C10. The insights are never empty. With a zero deduction their first line is "No
  attendance deductions were applied."; the fallback line "Attendance signals are stable
  for this period." is among them exactly when the deduction is positive and absent_days
  and late_days are both zero.
\<close>

theorem payslip_summary_insights_nonempty:
  "\<exists>s. payslip_summary r = Inr s \<and>
     insights s \<noteq> [] \<and>
     (dec_eq (deduction s) (dec_of_int 0) \<longrightarrow>
        (\<exists>rest. insights s = ''No attendance deductions were applied.'' # rest)) \<and>
     (''Attendance signals are stable for this period.'' \<in> set (insights s) \<longleftrightarrow>
        dec_lt (dec_of_int 0) (deduction s) \<and> sr_absent_days r = 0 \<and> sr_late_days r = 0)"
proof -
  obtain s where s: "payslip_summary r = Inr s"
    by (simp add: payslip_summary_spec Let_def)
  note i = payslip_insights [OF s]
  note sg = payslip_deduction_sign [OF s]
  have ne: "insights s \<noteq> []"
    unfolding i by simp
  have f: "''Attendance signals are stable for this period.'' \<in> set (insights s) \<longleftrightarrow>
        dec_lt (dec_of_int 0) (deduction s) \<and> sr_absent_days r = 0 \<and> sr_late_days r = 0"
    unfolding i sg
    using absent_line_not_fixed(2) [of r] late_line_not_fixed(2) [of r]
    by (auto simp: day_lines_members day_lines_empty)
  from s ne f i show ?thesis
    by auto
qed
lemma ex_payslip_summary:
  "payslip_summary ex_payslip =
     Inr \<lparr>headline = ''Significant deductions detected this month.'',
          insights = [''5 day(s) marked absent.'', ''1 day(s) marked late.''],
          warnings = [''Salary changed by more than 30% compared to last month.'',
                      ''Deduction total: 250.00 (25.0% of base pay).''],
          deduction = Dec 25000 (- 2), deduction_rate = Dec 2500 (- 2)\<rparr>"
  by code_simp

lemma ex_payslip_quiet_summary:
  "payslip_summary ex_payslip_quiet =
     Inr \<lparr>headline = ''Minor deductions applied to this month.'',
          insights = [''Attendance signals are stable for this period.''],
          warnings = [''Deduction total: 100.00 (10.0% of base pay).''],
          deduction = Dec 10000 (- 2), deduction_rate = Dec 100 (- 1)\<rparr>"
  by code_simp

lemma ex_payslip_full_summary:
  "payslip_summary ex_payslip_full =
     Inr \<lparr>headline = ''Full payout expected for this month.'',
          insights = [''No attendance deductions were applied.''],
          warnings = [],
          deduction = Dec 0 (- 2), deduction_rate = Dec 0 0\<rparr>"
  by code_simp

theorem payslip_summary_insights_warnings_witness:
  "sr_absent_days ex_payslip \<noteq> 0 \<and> sr_late_days ex_payslip \<noteq> 0 \<and> sr_anomaly_flag ex_payslip \<and>
   dec_lt (dec_of_int 0) (Dec 25000 (- 2)) \<and>
   map_sum id deduction (payslip_summary ex_payslip) = Inr (Dec 25000 (- 2)) \<and>
   map_sum id insights (payslip_summary ex_payslip) =
     Inr [''5 day(s) marked absent.'', ''1 day(s) marked late.''] \<and>
   map_sum id warnings (payslip_summary ex_payslip) =
     Inr [''Salary changed by more than 30% compared to last month.'',
          ''Deduction total: 250.00 (25.0% of base pay).'']"
proof -
  from payslip_summary_insights_warnings [of ex_payslip]
  obtain s where s: "payslip_summary ex_payslip = Inr s"
    and i: "\<not> dec_eq (deduction s) (dec_of_int 0) \<and> spec_day_lines ex_payslip \<noteq> [] \<longrightarrow>
        insights s = spec_day_lines ex_payslip"
    and w: "warnings s =
       (if sr_anomaly_flag ex_payslip
        then [''Salary changed by more than 30% compared to last month.''] else []) @
       (if dec_lt (dec_of_int 0) (deduction s)
        then [spec_deduction_line (deduction s) (deduction_rate s)] else [])"
    by blast
  from s have d: "deduction s = Dec 25000 (- 2)" and r: "deduction_rate s = Dec 2500 (- 2)"
    by (auto simp: ex_payslip_summary)
  have p: "dec_lt (dec_of_int 0) (Dec 25000 (- 2))" "\<not> dec_eq (Dec 25000 (- 2)) (dec_of_int 0)"
    by code_simp+
  have f: "sr_absent_days ex_payslip \<noteq> 0" "sr_late_days ex_payslip \<noteq> 0" "sr_anomaly_flag ex_payslip"
    by (simp_all add: ex_payslip_def ex_salary_def)
  have lines: "spec_day_lines ex_payslip = [''5 day(s) marked absent.'', ''1 day(s) marked late.'']"
    by code_simp
  have dl: "spec_deduction_line (Dec 25000 (- 2)) (Dec 2500 (- 2)) =
      ''Deduction total: 250.00 (25.0% of base pay).''"
    by code_simp
  from i d p lines have i': "insights s = [''5 day(s) marked absent.'', ''1 day(s) marked late.'']"
    by simp
  from w d r p f dl have w': "warnings s =
      [''Salary changed by more than 30% compared to last month.'',
       ''Deduction total: 250.00 (25.0% of base pay).'']"
    by simp
  from s d i' w' f p(1) show ?thesis
    by simp
qed

theorem payslip_summary_insights_nonempty_witness:
  "dec_eq (Dec 0 (- 2)) (dec_of_int 0) \<and>
   map_sum id deduction (payslip_summary ex_payslip_full) = Inr (Dec 0 (- 2)) \<and>
   map_sum id (\<lambda>s. hd (insights s)) (payslip_summary ex_payslip_full) =
     Inr ''No attendance deductions were applied.'' \<and>
   dec_lt (dec_of_int 0) (Dec 10000 (- 2)) \<and>
   sr_absent_days ex_payslip_quiet = 0 \<and> sr_late_days ex_payslip_quiet = 0 \<and>
   map_sum id deduction (payslip_summary ex_payslip_quiet) = Inr (Dec 10000 (- 2)) \<and>
   map_sum id (\<lambda>s. ''Attendance signals are stable for this period.'' \<in> set (insights s))
     (payslip_summary ex_payslip_quiet) = Inr True"
proof -
  from payslip_summary_insights_nonempty [of ex_payslip_full]
  obtain s where s: "payslip_summary ex_payslip_full = Inr s"
    and h: "dec_eq (deduction s) (dec_of_int 0) \<longrightarrow>
        (\<exists>rest. insights s = ''No attendance deductions were applied.'' # rest)"
    by blast
  from s have d: "deduction s = Dec 0 (- 2)"
    by (auto simp: ex_payslip_full_summary)
  have z: "dec_eq (Dec 0 (- 2)) (dec_of_int 0)"
    by code_simp
  from h d z have hd: "hd (insights s) = ''No attendance deductions were applied.''"
    by auto
  from payslip_summary_insights_nonempty [of ex_payslip_quiet]
  obtain q where q: "payslip_summary ex_payslip_quiet = Inr q"
    and f: "''Attendance signals are stable for this period.'' \<in> set (insights q) \<longleftrightarrow>
        dec_lt (dec_of_int 0) (deduction q) \<and> sr_absent_days ex_payslip_quiet = 0 \<and>
        sr_late_days ex_payslip_quiet = 0"
    by blast
  from q have dq: "deduction q = Dec 10000 (- 2)"
    by (auto simp: ex_payslip_quiet_summary)
  have p: "dec_lt (dec_of_int 0) (Dec 10000 (- 2))"
    by code_simp
  have c: "sr_absent_days ex_payslip_quiet = 0" "sr_late_days ex_payslip_quiet = 0"
    by (simp_all add: ex_payslip_quiet_def ex_salary_def)
  from f dq p c have m: "''Attendance signals are stable for this period.'' \<in> set (insights q)"
    by simp
  from s d z hd q dq p c m show ?thesis
    by simp
qed

section \<open>The salary derivation\<close>

lemma replace_last:
  assumes "valid_date m"
  shows "replace (m\<lparr>d_day := 1\<rparr>) (d_year m) (d_month m) (days_in_month (d_year m) (d_month m)) =
         Inr (spec_last_of_month m)"
proof -
  from assms have "28 \<le> days_in_month (d_year m) (d_month m)"
    by (simp add: valid_date_def days_in_month_ge_28)
  with assms have "valid_date (m\<lparr>d_day := days_in_month (d_year m) (d_month m)\<rparr>)"
    by (simp add: valid_date_def)
  then show ?thesis
    by (simp add: replace_def spec_last_of_month_def)
qed

lemma monthrange_valid:
  "valid_date m \<Longrightarrow> monthrange_ndays (d_year m) (d_month m) = Inr (days_in_month (d_year m) (d_month m))"
  by (simp add: monthrange_ndays_def valid_date_def)

lemma month_count_filter:
  "int (length (filter (\<lambda>r. ar_status r = s)
     (filter (\<lambda>r. u_id (ar_employee r) = u_id e \<and>
                   (date_le (spec_first_of_month m) (ar_date r) \<and>
                    date_le (ar_date r) (spec_last_of_month m)) \<and>
                   ar_review_status r = REVIEW_APPROVED) att))) =
   spec_month_count att e m s"
proof -
  have "filter (\<lambda>r. ar_status r = s)
     (filter (\<lambda>r. u_id (ar_employee r) = u_id e \<and>
                   (date_le (spec_first_of_month m) (ar_date r) \<and>
                    date_le (ar_date r) (spec_last_of_month m)) \<and>
                   ar_review_status r = REVIEW_APPROVED) att) =
     filter (\<lambda>a. u_id (ar_employee a) = u_id e \<and>
                               ar_review_status a = REVIEW_APPROVED \<and> ar_status a = s \<and>
                               date_le (spec_first_of_month m) (ar_date a) \<and>
                               date_le (ar_date a) (spec_last_of_month m)) att"
    unfolding filter_filter by (rule filter_cong [OF refl]) blast
  then show ?thesis
    by (simp only: spec_month_count_def)
qed

lemma daily_rate_division:
  "(if dec_truth base then dec_div base (Dec 22 0) else Inr (Dec 0 (- 2))) =
   Inr (nonzero_daily_rate base)"
  by (simp add: dec_div_def nonzero_daily_rate_def dec_truth_def dec_of_int_def dec_eq_zero_iff)

lemma half_rate_division: "dec_div d (Dec 2 0) = Inr (dec_quot d (Dec 2 0))"
  by (simp add: dec_div_def)

lemma anomaly_division:
  "(case previous of
      None \<Rightarrow> Inr False
    | Some p \<Rightarrow>
        if dec_truth (sr_final_salary p)
        then (case (if dec_truth (sr_final_salary p)
                    then dec_div (dec_abs (dec_sub final_salary (sr_final_salary p)))
                           (sr_final_salary p)
                    else Inr (Dec 0 (- 2))) of
                Inl e \<Rightarrow> Inl e
              | Inr ratio \<Rightarrow> Inr (dec_lt (Dec 30 (- 2)) ratio))
        else Inr False) =
   (Inr (case previous of
           None \<Rightarrow> False
         | Some p \<Rightarrow> spec_anomaly final_salary (sr_final_salary p)) :: error + bool)"
proof (cases previous)
  case None
  then show ?thesis by simp
next
  case (Some p)
  show ?thesis
  proof (cases "dec_truth (sr_final_salary p)")
    case True
    then have "coef (sr_final_salary p) \<noteq> 0"
      by (simp add: dec_truth_def)
    with True Some anomaly_test [of "sr_final_salary p" final_salary] show ?thesis
      by (simp add: dec_div_def Let_def)
  next
    case False
    with Some anomaly_test [of "sr_final_salary p" final_salary] show ?thesis
      by simp
  qed
qed

text \<open>
  For a record whose month is a date, the derivation returns, and assigns the month's
  first day, the two counts, the final salary and the anomaly flag.
\<close>

lemma salary_derivation_valid:
  assumes "valid_date (sr_month r)"
  shows "salary_derivation att tbl r =
     Inr (r\<lparr>sr_month := spec_first_of_month (sr_month r),
            sr_late_days := spec_month_count att (sr_employee r) (sr_month r) STATUS_LATE,
            sr_absent_days := spec_month_count att (sr_employee r) (sr_month r) STATUS_ABSENT,
            sr_final_salary :=
              spec_final_salary (nonzero_daily_rate (sr_base_salary r)) (sr_base_salary r)
                (spec_month_count att (sr_employee r) (sr_month r) STATUS_ABSENT)
                (spec_month_count att (sr_employee r) (sr_month r) STATUS_LATE),
            sr_anomaly_flag :=
              (case order_by_month_desc_first (spec_earlier tbl r) of
                 None \<Rightarrow> False
               | Some p \<Rightarrow>
                   spec_anomaly
                     (spec_final_salary (nonzero_daily_rate (sr_base_salary r)) (sr_base_salary r)
                        (spec_month_count att (sr_employee r) (sr_month r) STATUS_ABSENT)
                        (spec_month_count att (sr_employee r) (sr_month r) STATUS_LATE))
                     (sr_final_salary p))\<rparr>)"
proof -
  note m = assms
  have l: "replace (spec_first_of_month (sr_month r)) (d_year (sr_month r)) (d_month (sr_month r))
             (days_in_month (d_year (sr_month r)) (d_month (sr_month r))) =
           Inr (spec_last_of_month (sr_month r))"
    using replace_last [OF m] by (simp add: spec_first_of_month_def)
  have f: "replace (sr_month r) (d_year (sr_month r)) (d_month (sr_month r)) 1 =
           Inr (spec_first_of_month (sr_month r))"
    using replace_first [OF m] by (simp add: spec_first_of_month_def)
  have y: "d_year (spec_first_of_month (sr_month r)) = d_year (sr_month r)"
          "d_month (spec_first_of_month (sr_month r)) = d_month (sr_month r)"
    by (simp_all add: spec_first_of_month_def)
  show ?thesis
    unfolding salary_derivation_def
    by (simp only: f sum.case y monthrange_valid [OF m] l Let_def month_count_filter
        daily_rate_division half_rate_division anomaly_division
        spec_earlier_def [symmetric] spec_final_salary_def [symmetric]
        spec_salary_deduction_def [symmetric])
qed
text \<open>
  C1, as amended. For every record whose month is a date, the derivation returns a record
  with the month set to its first day; late_days and absent_days are the numbers of the
  employee's Approved Late and Approved Absent entries dated from the first to the last
  day of that month; the final salary is max(base - deduction, 0.00) with deduction =
  daily_rate * absent_days + (daily_rate / 2) * late_days, where the daily rate is
  base / 22 for every base salary that is not zero, a negative one included, and 0.00 for
  a zero one. For a base salary that is not negative this is the daily rate of the
  specification.
\<close>

theorem salary_derivation_fields:
  assumes "valid_date (sr_month r)"
  shows "\<exists>r'. salary_derivation att tbl r = Inr r' \<and>
     sr_month r' = spec_first_of_month (sr_month r) \<and>
     sr_late_days r' = spec_month_count att (sr_employee r) (sr_month r) STATUS_LATE \<and>
     sr_absent_days r' = spec_month_count att (sr_employee r) (sr_month r) STATUS_ABSENT \<and>
     sr_final_salary r' =
       spec_final_salary (nonzero_daily_rate (sr_base_salary r)) (sr_base_salary r)
         (sr_absent_days r') (sr_late_days r') \<and>
     (\<not> dec_lt (sr_base_salary r) (dec_of_int 0) \<longrightarrow>
        nonzero_daily_rate (sr_base_salary r) = claimed_daily_rate (sr_base_salary r)) \<and>
     sr_base_salary r' = sr_base_salary r \<and> sr_employee r' = sr_employee r \<and>
     sr_id r' = sr_id r"
proof -
  have "\<not> dec_lt (sr_base_salary r) (dec_of_int 0) \<longrightarrow>
        nonzero_daily_rate (sr_base_salary r) = claimed_daily_rate (sr_base_salary r)"
    by (auto simp: nonzero_daily_rate_def claimed_daily_rate_def dec_of_int_def
        dec_lt_zero_iff dec_eq_zero_iff dec_zero_lt_iff)
  then show ?thesis
    by (simp add: salary_derivation_valid [OF assms])
qed

lemma ex_march_derivation:
  "salary_derivation ex_march_att ex_salary_tbl ex_march =
     Inr (ex_march\<lparr>sr_month := ymd 2024 3 1, sr_late_days := 1, sr_absent_days := 2,
                   sr_final_salary := Dec 8863636363636363636363636364 (- 25),
                   sr_anomaly_flag := False\<rparr>)"
  by code_simp

theorem salary_derivation_fields_witness:
  "valid_date (sr_month ex_march) \<and>
   spec_first_of_month (sr_month ex_march) = ymd 2024 3 1 \<and>
   spec_month_count ex_march_att (sr_employee ex_march) (sr_month ex_march) STATUS_LATE = 1 \<and>
   spec_month_count ex_march_att (sr_employee ex_march) (sr_month ex_march) STATUS_ABSENT = 2 \<and>
   spec_final_salary (nonzero_daily_rate (sr_base_salary ex_march)) (sr_base_salary ex_march) 2 1 =
     Dec 8863636363636363636363636364 (- 25) \<and>
   map_sum id sr_final_salary (salary_derivation ex_march_att ex_salary_tbl ex_march) =
     Inr (Dec 8863636363636363636363636364 (- 25))"
proof -
  have v: "valid_date (sr_month ex_march)"
    by code_simp
  from salary_derivation_fields [OF v, of ex_march_att ex_salary_tbl]
  obtain r' where r: "salary_derivation ex_march_att ex_salary_tbl ex_march = Inr r'"
    and l: "sr_late_days r' =
      spec_month_count ex_march_att (sr_employee ex_march) (sr_month ex_march) STATUS_LATE"
    and a: "sr_absent_days r' =
      spec_month_count ex_march_att (sr_employee ex_march) (sr_month ex_march) STATUS_ABSENT"
    and f: "sr_final_salary r' =
       spec_final_salary (nonzero_daily_rate (sr_base_salary ex_march)) (sr_base_salary ex_march)
         (sr_absent_days r') (sr_late_days r')"
    by blast
  have m: "spec_first_of_month (sr_month ex_march) = ymd 2024 3 1"
    by code_simp
  from r have "sr_late_days r' = 1" "sr_absent_days r' = 2"
      "sr_final_salary r' = Dec 8863636363636363636363636364 (- 25)"
    by (auto simp: ex_march_derivation)
  with v r l a f m show ?thesis
    by simp
qed

text \<open>
  The specification's wording fails for a negative base salary: with 23 Approved absences the
  code computes daily rate -100.00, deduction -2300.00 and final salary 100.00, where
  the specification's daily rate 0 gives final salary 0.00.
\<close>

theorem salary_derivation_negative_base_counterexample:
  "map_sum id sr_absent_days (salary_derivation ex_absences [] ex_negative) = Inr 23 \<and>
   map_sum id sr_late_days (salary_derivation ex_absences [] ex_negative) = Inr 0 \<and>
   map_sum id sr_final_salary (salary_derivation ex_absences [] ex_negative) =
     Inr (Dec 10000 (- 2)) \<and>
   spec_final_salary (claimed_daily_rate (sr_base_salary ex_negative))
     (sr_base_salary ex_negative) 23 0 = Dec 0 (- 2) \<and>
   \<not> dec_eq (Dec 10000 (- 2)) (Dec 0 (- 2))"
  by code_simp
section \<open>The previous month's record\<close>

lemma date_lt_irrefl: "\<not> date_lt a a"
  by (simp add: date_lt_def)

lemma date_lt_asym: "date_lt a b \<Longrightarrow> \<not> date_lt b a"
  by (auto simp: date_lt_def)

lemma date_le_trans: "date_le a b \<Longrightarrow> date_le b c \<Longrightarrow> date_le a c"
  by (auto simp: date_le_def date_lt_def)

lemma date_le_refl: "date_le a a"
  by (simp add: date_le_def date_lt_irrefl)

lemma order_by_month_desc_first_None: "order_by_month_desc_first xs = None \<longleftrightarrow> xs = []"
  by (induction xs) (auto split: option.splits)

lemma order_by_month_desc_first_Some:
  "order_by_month_desc_first xs = Some p \<Longrightarrow>
   p \<in> set xs \<and> (\<forall>q\<in>set xs. date_le (sr_month q) (sr_month p))"
proof (induction xs arbitrary: p)
  case Nil
  then show ?case by simp
next
  case (Cons x xs)
  show ?case
  proof (cases "order_by_month_desc_first xs")
    case None
    then have "xs = []" by (simp add: order_by_month_desc_first_None)
    with Cons.prems show ?thesis by (simp add: date_le_refl)
  next
    case (Some y)
    from Cons.IH [OF Some]
    have y: "y \<in> set xs" "\<forall>q\<in>set xs. date_le (sr_month q) (sr_month y)" by simp_all
    show ?thesis
    proof (cases "date_lt (sr_month x) (sr_month y)")
      case True
      with Some Cons.prems have "p = y" by simp
      moreover from True have "date_le (sr_month x) (sr_month y)"
        by (simp add: date_le_def date_lt_asym)
      ultimately show ?thesis using y by simp
    next
      case False
      with Some Cons.prems have p: "p = x" by simp
      from False have "date_le (sr_month y) (sr_month x)"
        by (simp add: date_le_def)
      with y(2) have "\<forall>q\<in>set xs. date_le (sr_month q) (sr_month x)"
        by (blast intro: date_le_trans)
      with p show ?thesis by (simp add: date_le_refl)
    qed
  qed
qed

text \<open>
  C2. For every record whose month is a date: when no record of the same employee has a
  strictly earlier month, the anomaly flag is false; otherwise the previous record is one
  of those records, none of them has a later month, and the flag says that its final
  salary is positive and |final - previous final| / previous final exceeds 0.30 (so it
  is false for a previous final salary that is zero or negative).
\<close>

theorem salary_derivation_anomaly:
  assumes "valid_date (sr_month r)"
  shows "\<exists>r'. salary_derivation att tbl r = Inr r' \<and>
     (spec_earlier tbl r = [] \<longrightarrow> \<not> sr_anomaly_flag r') \<and>
     (spec_earlier tbl r \<noteq> [] \<longrightarrow>
        (\<exists>p. order_by_month_desc_first (spec_earlier tbl r) = Some p \<and>
             p \<in> set (spec_earlier tbl r) \<and>
             (\<forall>q\<in>set (spec_earlier tbl r). date_le (sr_month q) (sr_month p)) \<and>
             sr_anomaly_flag r' =
               (dec_lt (dec_of_int 0) (sr_final_salary p) \<and>
                dec_lt (Dec 30 (- 2))
                  (dec_quot (dec_abs (dec_sub (sr_final_salary r') (sr_final_salary p)))
                     (sr_final_salary p)))))"
proof (cases "order_by_month_desc_first (spec_earlier tbl r)")
  case None
  then have "spec_earlier tbl r = []"
    by (simp add: order_by_month_desc_first_None)
  with None show ?thesis
    by (simp add: salary_derivation_valid [OF assms])
next
  case (Some p)
  from order_by_month_desc_first_Some [OF Some]
  have p: "p \<in> set (spec_earlier tbl r)"
    "\<forall>q\<in>set (spec_earlier tbl r). date_le (sr_month q) (sr_month p)"
    by simp_all
  then have "spec_earlier tbl r \<noteq> []" by auto
  with Some p show ?thesis
    by (simp add: salary_derivation_valid [OF assms] spec_anomaly_def)
qed
lemma ex_march_low_previous:
  "order_by_month_desc_first (spec_earlier ex_salary_tbl ex_march_low) =
     Some (ex_salary (Some 2) ex_alice (ymd 2024 2 1) (Dec 100000 (- 2)) (Dec 100000 (- 2)))"
  by code_simp

lemma ex_march_low_derivation:
  "map_sum id sr_final_salary (salary_derivation [] ex_salary_tbl ex_march_low) =
     Inr (Dec 6000000000000000000000000000 (- 25))"
  by code_simp

lemma ex_march_low_ratio:
  "dec_quot (dec_abs (dec_sub (Dec 6000000000000000000000000000 (- 25)) (Dec 100000 (- 2))))
     (Dec 100000 (- 2)) = Dec 40000000000000000000000 (- 23)"
  by code_simp

theorem salary_derivation_anomaly_witness:
  "valid_date (sr_month ex_march_low) \<and>
   spec_earlier ex_salary_tbl ex_march_low \<noteq> [] \<and>
   dec_lt (dec_of_int 0) (Dec 100000 (- 2)) \<and>
   dec_lt (Dec 30 (- 2)) (Dec 40000000000000000000000 (- 23)) \<and>
   map_sum id sr_anomaly_flag (salary_derivation [] ex_salary_tbl ex_march_low) = Inr True"
proof -
  have v: "valid_date (sr_month ex_march_low)"
    by code_simp
  have ne: "spec_earlier ex_salary_tbl ex_march_low \<noteq> []"
    by code_simp
  from salary_derivation_anomaly [OF v, of "[]" ex_salary_tbl] ne
  obtain r' p where r: "salary_derivation [] ex_salary_tbl ex_march_low = Inr r'"
    and p: "order_by_month_desc_first (spec_earlier ex_salary_tbl ex_march_low) = Some p"
    and f: "sr_anomaly_flag r' =
               (dec_lt (dec_of_int 0) (sr_final_salary p) \<and>
                dec_lt (Dec 30 (- 2))
                  (dec_quot (dec_abs (dec_sub (sr_final_salary r') (sr_final_salary p)))
                     (sr_final_salary p)))"
    by blast
  from p have pf: "sr_final_salary p = Dec 100000 (- 2)"
    by (auto simp: ex_march_low_previous ex_salary_def)
  from r ex_march_low_derivation
  have rf: "sr_final_salary r' = Dec 6000000000000000000000000000 (- 25)"
    by simp
  have c: "dec_lt (dec_of_int 0) (Dec 100000 (- 2))"
      "dec_lt (Dec 30 (- 2)) (Dec 40000000000000000000000 (- 23))"
    by code_simp+
  from f pf rf c have "sr_anomaly_flag r'"
    by (simp add: ex_march_low_ratio)
  with v ne c r show ?thesis
    by simp
qed
section \<open>Saving twice\<close>

lemma first_of_month_idem: "spec_first_of_month (spec_first_of_month m) = spec_first_of_month m"
  by (simp add: spec_first_of_month_def)

lemma last_of_first_of_month: "spec_last_of_month (spec_first_of_month m) = spec_last_of_month m"
  by (simp add: spec_first_of_month_def spec_last_of_month_def)

lemma month_count_first_of_month:
  "spec_month_count att e (spec_first_of_month m) s = spec_month_count att e m s"
  by (simp add: spec_month_count_def first_of_month_idem last_of_first_of_month)

lemma next_id_bound: "q \<in> set tbl \<Longrightarrow> sr_id q = Some i \<Longrightarrow> i < next_id tbl"
proof (induction tbl)
  case Nil
  then show ?case by simp
next
  case (Cons x xs)
  show ?case
  proof (cases "q = x")
    case True
    with Cons.prems show ?thesis by (simp add: next_id_def)
  next
    case False
    with Cons.prems have "q \<in> set xs" by simp
    from Cons.IH [OF this Cons.prems(2)] show ?thesis
      by (auto simp: next_id_def split: option.splits)
  qed
qed

lemma next_id_fresh: "q \<in> set tbl \<Longrightarrow> sr_id q \<noteq> Some (next_id tbl)"
  using next_id_bound [of q tbl "next_id tbl"] by auto

text \<open>The rows with an earlier month, after the saved record took its place in the table.\<close>

lemma spec_earlier_cong:
  assumes "u_id (sr_employee r') = u_id (sr_employee r)"
    and "spec_first_of_month (sr_month r') = spec_first_of_month (sr_month r)"
  shows "spec_earlier tbl r' = spec_earlier tbl r"
  using assms by (simp add: spec_earlier_def)

lemma spec_earlier_append_self:
  assumes "sr_month x = spec_first_of_month (sr_month r)"
  shows "spec_earlier (tbl @ [x]) r = spec_earlier tbl r"
  using assms by (simp add: spec_earlier_def date_lt_irrefl)

lemma spec_earlier_replace_self:
  assumes "sr_month x = spec_first_of_month (sr_month r)"
    and "\<forall>q\<in>set tbl. sr_id q = Some i \<longrightarrow>
           \<not> (u_id (sr_employee q) = u_id (sr_employee r) \<and>
              date_lt (sr_month q) (spec_first_of_month (sr_month r)))"
  shows "spec_earlier (map (\<lambda>q. if sr_id q = Some i then x else q) tbl) r = spec_earlier tbl r"
  using assms(2)
proof (induction tbl)
  case Nil
  then show ?case by (simp add: spec_earlier_def)
next
  case (Cons q qs)
  then have "spec_earlier (map (\<lambda>q. if sr_id q = Some i then x else q) qs) r = spec_earlier qs r"
    by simp
  with Cons.prems assms(1) show ?case
    by (auto simp: spec_earlier_def date_lt_irrefl)
qed
lemma derivation_again:
  assumes v: "valid_date (sr_month r)" and d: "salary_derivation att tbl r = Inr r1"
  shows "salary_derivation att tbl' (r1\<lparr>sr_id := j\<rparr>) =
     Inr (r1\<lparr>sr_id := j,
              sr_anomaly_flag :=
                (case order_by_month_desc_first (spec_earlier tbl' r) of
                   None \<Rightarrow> False
                 | Some p \<Rightarrow> spec_anomaly (sr_final_salary r1) (sr_final_salary p))\<rparr>)"
    and "sr_anomaly_flag r1 =
           (case order_by_month_desc_first (spec_earlier tbl r) of
              None \<Rightarrow> False
            | Some p \<Rightarrow> spec_anomaly (sr_final_salary r1) (sr_final_salary p))"
    and "sr_month r1 = spec_first_of_month (sr_month r)"
    and "sr_employee r1 = sr_employee r"
    and "sr_id r1 = sr_id r"
proof -
  note e = d [unfolded salary_derivation_valid [OF v], simplified, symmetric]
  show m: "sr_month r1 = spec_first_of_month (sr_month r)"
    by (subst e) simp
  show emp: "sr_employee r1 = sr_employee r"
    by (subst e) simp
  show "sr_id r1 = sr_id r"
    by (subst e) simp
  have base: "sr_base_salary r1 = sr_base_salary r"
    by (subst e) simp
  have fin: "sr_final_salary r1 =
      spec_final_salary (nonzero_daily_rate (sr_base_salary r)) (sr_base_salary r)
                (spec_month_count att (sr_employee r) (sr_month r) STATUS_ABSENT)
                (spec_month_count att (sr_employee r) (sr_month r) STATUS_LATE)"
    by (subst e) simp
  have late: "sr_late_days r1 = spec_month_count att (sr_employee r) (sr_month r) STATUS_LATE"
    by (subst e) simp
  have absent: "sr_absent_days r1 = spec_month_count att (sr_employee r) (sr_month r) STATUS_ABSENT"
    by (subst e) simp
  show "sr_anomaly_flag r1 =
           (case order_by_month_desc_first (spec_earlier tbl r) of
              None \<Rightarrow> False
            | Some p \<Rightarrow> spec_anomaly (sr_final_salary r1) (sr_final_salary p))"
    unfolding fin using arg_cong [OF e, of sr_anomaly_flag] by simp
  have v1: "valid_date (sr_month (r1\<lparr>sr_id := j\<rparr>))"
    using valid_first_of_month [OF v] by (simp add: m spec_first_of_month_def)
  have se: "spec_earlier tbl' (r1\<lparr>sr_id := j\<rparr>) = spec_earlier tbl' r"
    by (rule spec_earlier_cong) (simp_all add: m emp first_of_month_idem)
  show "salary_derivation att tbl' (r1\<lparr>sr_id := j\<rparr>) =
     Inr (r1\<lparr>sr_id := j,
              sr_anomaly_flag :=
                (case order_by_month_desc_first (spec_earlier tbl' r) of
                   None \<Rightarrow> False
                 | Some p \<Rightarrow> spec_anomaly (sr_final_salary r1) (sr_final_salary p))\<rparr>)"
  proof -
    have 1: "spec_first_of_month (sr_month (r1\<lparr>sr_id := j\<rparr>)) = sr_month r1"
      by (simp add: m first_of_month_idem)
    have 2: "\<And>s. spec_month_count att (sr_employee (r1\<lparr>sr_id := j\<rparr>))
                 (sr_month (r1\<lparr>sr_id := j\<rparr>)) s =
               spec_month_count att (sr_employee r) (sr_month r) s"
      by (simp add: m emp month_count_first_of_month)
    have 3: "sr_base_salary (r1\<lparr>sr_id := j\<rparr>) = sr_base_salary r"
      by (simp add: base)
    have "salary_derivation att tbl' (r1\<lparr>sr_id := j\<rparr>) =
      Inr (r1\<lparr>sr_id := j, sr_month := sr_month r1, sr_late_days := sr_late_days r1,
               sr_absent_days := sr_absent_days r1, sr_final_salary := sr_final_salary r1,
               sr_anomaly_flag :=
                (case order_by_month_desc_first (spec_earlier tbl' r) of
                   None \<Rightarrow> False
                 | Some p \<Rightarrow> spec_anomaly (sr_final_salary r1) (sr_final_salary p))\<rparr>)"
      unfolding salary_derivation_valid [OF v1] se 1 2 3 fin late absent ..
    then show ?thesis
      by simp
  qed
qed
lemma super_save_Inr:
  assumes "super_save tbl d = Inr (r1, tbl1)"
  shows "\<exists>j. r1 = d\<lparr>sr_id := Some j\<rparr> \<and>
           (\<forall>q\<in>set tbl. sr_id q \<noteq> Some j \<longrightarrow>
              \<not> (u_id (sr_employee q) = u_id (sr_employee d) \<and> sr_month q = sr_month d)) \<and>
           ((tbl1 = tbl @ [r1] \<and> (\<forall>q\<in>set tbl. sr_id q \<noteq> Some j)) \<or>
            (tbl1 = map (\<lambda>q. if sr_id q = Some j then r1 else q) tbl \<and>
             sr_id d = Some j \<and> (\<exists>q\<in>set tbl. sr_id q = Some j)))"
proof -
  from assms have nc: "\<not> list_ex (\<lambda>q. (sr_id d = None \<or> sr_id q \<noteq> sr_id d) \<and>
                      u_id (sr_employee q) = u_id (sr_employee d) \<and>
                      sr_month q = sr_month d) tbl"
    by (auto simp: super_save_def split: if_splits)
  show ?thesis
  proof (cases "sr_id d")
    case None
    with assms nc have r1: "r1 = d\<lparr>sr_id := Some (next_id tbl)\<rparr>" and t: "tbl1 = tbl @ [r1]"
      by (auto simp: super_save_def Let_def)
    from nc None have "\<forall>q\<in>set tbl.
        \<not> (u_id (sr_employee q) = u_id (sr_employee d) \<and> sr_month q = sr_month d)"
      by (simp add: list_ex_iff)
    with r1 t next_id_fresh [of _ tbl] show ?thesis
      by blast
  next
    case (Some i)
    with nc have c: "\<forall>q\<in>set tbl. sr_id q \<noteq> Some i \<longrightarrow>
        \<not> (u_id (sr_employee q) = u_id (sr_employee d) \<and> sr_month q = sr_month d)"
      by (auto simp: list_ex_iff)
    from Some have di: "d\<lparr>sr_id := Some i\<rparr> = d"
      by simp
    show ?thesis
    proof (cases "list_ex (\<lambda>q. sr_id q = Some i) tbl")
      case True
      with assms nc Some have "r1 = d" "tbl1 = map (\<lambda>q. if sr_id q = Some i then d else q) tbl"
        by (auto simp: super_save_def)
      with True Some c di show ?thesis
        by (intro exI [of _ i]) (simp add: list_ex_iff)
    next
      case False
      with assms nc Some have "r1 = d" "tbl1 = tbl @ [d]"
        by (auto simp: super_save_def)
      with False Some c di show ?thesis
        by (intro exI [of _ i]) (simp add: list_ex_iff)
    qed
  qed
qed

lemma super_save_again:
  assumes "sr_id z = Some j"
    and "\<forall>q\<in>set tbl1. sr_id q \<noteq> Some j \<longrightarrow>
           \<not> (u_id (sr_employee q) = u_id (sr_employee z) \<and> sr_month q = sr_month z)"
    and "\<exists>q\<in>set tbl1. sr_id q = Some j"
  shows "super_save tbl1 z = Inr (z, map (\<lambda>q. if sr_id q = Some j then z else q) tbl1)"
  using assms by (auto simp: super_save_def list_ex_iff)
text \<open>
  C9, as amended. A record with a date as month that was saved is saved again with the
  same attendance table and the table the first save left: the second save succeeds and
  gives the same late_days, absent_days and final_salary. Unless the row stored under
  the record's key before the first save was a row of the same employee with a strictly
  earlier month (the month of the record was moved forward), it gives the same
  anomaly_flag too, and leaves record and table as they are.
\<close>

theorem save_again:
  assumes v: "valid_date (sr_month r)" and s: "save att tbl r = Inr (r1, tbl1)"
  shows "\<exists>r2 tbl2. save att tbl1 r1 = Inr (r2, tbl2) \<and>
      sr_late_days r2 = sr_late_days r1 \<and> sr_absent_days r2 = sr_absent_days r1 \<and>
      sr_final_salary r2 = sr_final_salary r1 \<and>
      (\<not> own_row_earlier tbl r \<longrightarrow>
         sr_anomaly_flag r2 = sr_anomaly_flag r1 \<and> r2 = r1 \<and> tbl2 = tbl1)"
proof -
  from s obtain d where d: "salary_derivation att tbl r = Inr d"
    and ss: "super_save tbl d = Inr (r1, tbl1)"
    by (auto simp: save_def split: sum.splits)
  note da = derivation_again [OF v d]
  from super_save_Inr [OF ss] obtain j where
    r1: "r1 = d\<lparr>sr_id := Some j\<rparr>"
    and nc: "\<forall>q\<in>set tbl. sr_id q \<noteq> Some j \<longrightarrow>
              \<not> (u_id (sr_employee q) = u_id (sr_employee d) \<and> sr_month q = sr_month d)"
    and shape: "(tbl1 = tbl @ [r1] \<and> (\<forall>q\<in>set tbl. sr_id q \<noteq> Some j)) \<or>
            (tbl1 = map (\<lambda>q. if sr_id q = Some j then r1 else q) tbl \<and>
             sr_id d = Some j \<and> (\<exists>q\<in>set tbl. sr_id q = Some j))"
    by blast
  define G where "G t = (case order_by_month_desc_first (spec_earlier t r) of
        None \<Rightarrow> False
      | Some p \<Rightarrow> spec_anomaly (sr_final_salary d) (sr_final_salary p))" for t
  define r2 where "r2 = r1\<lparr>sr_anomaly_flag := G tbl1\<rparr>"
  have der2: "salary_derivation att tbl1 r1 = Inr r2"
    unfolding r1 r2_def G_def using da(1) [of tbl1 "Some j"] by simp
  have id1: "sr_id r1 = Some j"
    by (simp add: r1)
  have id2: "sr_id r2 = Some j"
    by (simp add: r2_def r1)
  have em: "sr_employee r2 = sr_employee d" "sr_month r2 = sr_month d"
    by (simp_all add: r2_def r1)
  have nc1: "\<forall>q\<in>set tbl1. sr_id q \<noteq> Some j \<longrightarrow>
           \<not> (u_id (sr_employee q) = u_id (sr_employee r2) \<and> sr_month q = sr_month r2)"
    unfolding em using shape nc id1 by auto
  have ex1: "\<exists>q\<in>set tbl1. sr_id q = Some j"
    using shape id1 by auto
  have sv: "save att tbl1 r1 = Inr (r2, map (\<lambda>q. if sr_id q = Some j then r2 else q) tbl1)"
    using super_save_again [OF id2 nc1 ex1] der2 by (simp add: save_def)
  have fields: "sr_late_days r2 = sr_late_days r1" "sr_absent_days r2 = sr_absent_days r1"
      "sr_final_salary r2 = sr_final_salary r1"
    by (simp_all add: r2_def)
  have cond: "r2 = r1 \<and> map (\<lambda>q. if sr_id q = Some j then r2 else q) tbl1 = tbl1"
    if o: "\<not> own_row_earlier tbl r"
  proof -
    have m1: "sr_month r1 = spec_first_of_month (sr_month r)"
      by (simp add: r1 da(3))
    have "spec_earlier tbl1 r = spec_earlier tbl r"
      using shape
    proof
      assume "tbl1 = tbl @ [r1] \<and> (\<forall>q\<in>set tbl. sr_id q \<noteq> Some j)"
      then show ?thesis
        using spec_earlier_append_self [OF m1, of tbl] by simp
    next
      assume b: "tbl1 = map (\<lambda>q. if sr_id q = Some j then r1 else q) tbl \<and>
             sr_id d = Some j \<and> (\<exists>q\<in>set tbl. sr_id q = Some j)"
      with da(5) have "sr_id r = Some j" by simp
      with o have "\<forall>q\<in>set tbl. sr_id q = Some j \<longrightarrow>
           \<not> (u_id (sr_employee q) = u_id (sr_employee r) \<and>
              date_lt (sr_month q) (spec_first_of_month (sr_month r)))"
        by (auto simp: own_row_earlier_def list_ex_iff)
      from spec_earlier_replace_self [OF m1 this] b show ?thesis
        by simp
    qed
    then have "G tbl1 = sr_anomaly_flag d"
      unfolding G_def using da(2) by simp
    then have e: "r2 = r1"
      by (simp add: r2_def r1)
    have "map (\<lambda>q. if sr_id q = Some j then r1 else q) tbl1 = tbl1"
      using shape
    proof
      assume a: "tbl1 = tbl @ [r1] \<and> (\<forall>q\<in>set tbl. sr_id q \<noteq> Some j)"
      then have "map (\<lambda>q. if sr_id q = Some j then r1 else q) tbl = tbl"
        by (intro map_idI) simp
      with a id1 show ?thesis by simp
    next
      assume b: "tbl1 = map (\<lambda>q. if sr_id q = Some j then r1 else q) tbl \<and>
             sr_id d = Some j \<and> (\<exists>q\<in>set tbl. sr_id q = Some j)"
      have "map (\<lambda>q. if sr_id q = Some j then r1 else q)
              (map (\<lambda>q. if sr_id q = Some j then r1 else q) tbl) =
            map (\<lambda>q. if sr_id q = Some j then r1 else q) tbl"
        using id1 by (simp add: comp_def cong: map_cong)
      with b show ?thesis by simp
    qed
    then show ?thesis unfolding e by simp
  qed
  from sv fields cond show ?thesis
    by auto
qed
lemma ex_march_first_save:
  "save ex_march_att ex_salary_tbl ex_march = Inr (ex_march_saved, ex_salary_tbl @ [ex_march_saved])"
  by code_simp

theorem save_again_witness:
  "valid_date (sr_month ex_march) \<and>
   \<not> own_row_earlier ex_salary_tbl ex_march \<and>
   save ex_march_att ex_salary_tbl ex_march =
     Inr (ex_march_saved, ex_salary_tbl @ [ex_march_saved]) \<and>
   save ex_march_att (ex_salary_tbl @ [ex_march_saved]) ex_march_saved =
     Inr (ex_march_saved, ex_salary_tbl @ [ex_march_saved])"
proof -
  have v: "valid_date (sr_month ex_march)"
    by code_simp
  have o: "\<not> own_row_earlier ex_salary_tbl ex_march"
    by code_simp
  from save_again [OF v ex_march_first_save] o
  have "save ex_march_att (ex_salary_tbl @ [ex_march_saved]) ex_march_saved =
          Inr (ex_march_saved, ex_salary_tbl @ [ex_march_saved])"
    by auto
  with v o ex_march_first_save show ?thesis
    by simp
qed

text \<open>
  The specification's wording fails when the month of a stored record is moved forward:
  the first save finds the record's own stored row (January, final salary 1000.00) as
  the previous record and sets the anomaly flag; saving the result again finds no
  previous record and clears it.
\<close>

theorem save_again_counterexample:
  "save [] ex_stored ex_edited = Inr (ex_edited_saved, [ex_edited_saved]) \<and>
   sr_anomaly_flag ex_edited_saved \<and>
   save [] [ex_edited_saved] ex_edited_saved =
     Inr (ex_edited_saved\<lparr>sr_anomaly_flag := False\<rparr>,
          [ex_edited_saved\<lparr>sr_anomaly_flag := False\<rparr>])"
  by code_simp

end
